theory Spec2Isabelle
  imports Complex_Main "HOL-Library.Log_Nat" "HOL-Library.AList"
begin

section \<open>Python values used by the sentencing advisor\<close>

text \<open>
  The advisor computes \<^verbatim>\<open>round(sum(sentences) / len(sentences), 1)\<close> on Python integers.
  The division yields a binary64 float and \<^verbatim>\<open>round\<close> works on that float, so both are
  modelled exactly: a float is represented by the rational number it denotes, and every
  operation rounds its exact result to the nearest number with a 53-bit significand.
  The exceptions these operations can raise are values of \<open>py_error\<close>.
\<close>

datatype py_error = ZeroDivisionError | OverflowError | ValueError | TypeError

definition bind_err :: "py_error + 'a \<Rightarrow> ('a \<Rightarrow> py_error + 'b) \<Rightarrow> py_error + 'b" where
  "bind_err r f = (case r of Inl e \<Rightarrow> Inl e | Inr v \<Rightarrow> f v)"

text \<open>\<open>pow2 e\<close> is \<open>2\<close> to the (possibly negative) power \<open>e\<close>.\<close>

definition pow2 :: "int \<Rightarrow> rat" where
  "pow2 e = (if 0 \<le> e then 2 ^ nat e else 1 / 2 ^ nat (- e))"

text \<open>
  The binary exponent of a positive rational: \<open>flog2 x\<close> is the integer \<open>e\<close> with
  \<open>2 ^ e \<le> x < 2 ^ (e + 1)\<close>, found from the bit lengths of numerator and denominator.
\<close>

definition flog2 :: "rat \<Rightarrow> int" where
  "flog2 x = (let (p, q) = quotient_of x; d = bitlen p - bitlen q
              in if pow2 d \<le> x then d else d - 1)"

text \<open>Rounding to the nearest integer, ties to the even neighbour.\<close>

definition round_half_even :: "rat \<Rightarrow> int" where
  "round_half_even t =
     (let f = \<lfloor>t\<rfloor>; r = t - of_int f
      in if r < 1 / 2 then f
         else if 1 / 2 < r then f + 1
         else if even f then f else f + 1)"

text \<open>
  \<open>fl53 x\<close> is the binary64 number nearest to \<open>x\<close> (ties to even): the significand has
  53 bits, and below the normal range (exponent \<open>- 1022\<close>) the spacing stays that of the
  subnormal numbers. The exponent is not bounded above here; the callers test for overflow.
\<close>

definition fl53 :: "rat \<Rightarrow> rat" where
  "fl53 x = (let e = max (flog2 \<bar>x\<bar>) (- 1022); u = pow2 (e - 52)
             in of_int (round_half_even (x / u)) * u)"

text \<open>
  \<^verbatim>\<open>a / b\<close> on Python integers: ZeroDivisionError for a zero divisor, otherwise the
  correctly rounded quotient, and OverflowError when that is too large for a float.
\<close>

definition py_truediv :: "int \<Rightarrow> int \<Rightarrow> py_error + rat" where
  "py_truediv a b =
     (if b = 0 then Inl ZeroDivisionError
      else let r = fl53 (of_int a / of_int b)
           in if 2 ^ 1024 \<le> \<bar>r\<bar> then Inl OverflowError else Inr r)"

text \<open>
  \<^verbatim>\<open>round(x, ndigits)\<close> on a float: the exact value of \<open>x\<close> is rounded to \<open>ndigits\<close>
  decimal places, ties to even (\<open>round_decimal\<close>), and the resulting decimal numeral is
  read back as the nearest float.
\<close>

definition round_decimal :: "rat \<Rightarrow> nat \<Rightarrow> rat" where
  "round_decimal x ndigits = of_int (round_half_even (x * 10 ^ ndigits)) / 10 ^ ndigits"

definition py_round :: "rat \<Rightarrow> nat \<Rightarrow> py_error + rat" where
  "py_round x ndigits =
     (let r = fl53 (round_decimal x ndigits)
      in if 2 ^ 1024 \<le> \<bar>r\<bar> then Inl OverflowError else Inr r)"

text \<open>\<^verbatim>\<open>min\<close> and \<^verbatim>\<open>max\<close> of a list raise ValueError on the empty list.\<close>

fun py_min :: "int list \<Rightarrow> py_error + int" where
  "py_min [] = Inl ValueError"
| "py_min (x # xs) = Inr (fold min xs x)"

fun py_max :: "int list \<Rightarrow> py_error + int" where
  "py_max [] = Inl ValueError"
| "py_max (x # xs) = Inr (fold max xs x)"

text \<open>The decimal numeral of a natural number, as an f-string prints a length.\<close>

definition digit_char :: "nat \<Rightarrow> char" where
  "digit_char d = char_of (48 + d)"

fun str_nat :: "nat \<Rightarrow> string" where
  "str_nat n = (if n < 10 then [digit_char n] else str_nat (n div 10) @ [digit_char (n mod 10)])"

declare str_nat.simps [simp del]

section \<open>Person 3: Sentencing Advisor\<close>

text \<open>
  A row of \<^verbatim>\<open>historical_data\<close> is a dictionary with the four keys below; the key
  \<^verbatim>\<open>case_id\<close> is the field \<open>hist_case_id\<close>, since \<open>case_id\<close> names the field of
  \<^verbatim>\<open>CriminalCase\<close> further down.
\<close>

record hist_case =
  hist_case_id :: string
  crime_type :: string
  severity_score :: int
  sentence_given_months :: int

text \<open>The dictionary built by \<^verbatim>\<open>get_stats\<close> and the one returned by the advisor.\<close>

record stats =
  recommendation_months :: rat
  min_sentence :: int
  max_sentence :: int
  case_count :: nat

record sentencing_result =
  status :: string
  data :: "stats option"
  basis :: string

definition get_stats :: "hist_case list \<Rightarrow> py_error + stats option" where
  "get_stats cases =
     (if cases = [] then Inr None
      else let sentences = map sentence_given_months cases
           in bind_err (py_truediv (sum_list sentences) (int (length sentences))) (\<lambda>mean.
              bind_err (py_round mean 1) (\<lambda>rec.
              bind_err (py_min sentences) (\<lambda>lo.
              bind_err (py_max sentences) (\<lambda>hi.
              Inr (Some \<lparr>recommendation_months = rec, min_sentence = lo,
                         max_sentence = hi, case_count = length cases\<rparr>))))))"

text \<open>
  \<^verbatim>\<open>stats['case_count']\<close>: subscripting \<^verbatim>\<open>None\<close> raises TypeError.
\<close>

definition stats_field :: "stats option \<Rightarrow> (stats \<Rightarrow> 'a) \<Rightarrow> py_error + 'a" where
  "stats_field st f = (case st of None \<Rightarrow> Inl TypeError | Some s \<Rightarrow> Inr (f s))"

definition recommend_sentence :: "hist_case list \<Rightarrow> string \<Rightarrow> int \<Rightarrow> py_error + sentencing_result" where
  "recommend_sentence dataset c s =
     (let matching_cases = filter (\<lambda>h. crime_type h = c \<and> severity_score h = s) dataset
      in if matching_cases \<noteq> [] then
           bind_err (get_stats matching_cases) (\<lambda>st.
           bind_err (stats_field st case_count) (\<lambda>n.
           Inr \<lparr>status = ''Success'', data = st,
                basis = ''Direct match from '' @ str_nat n @ '' historical case(s).''\<rparr>))
         else
           let adjacent = filter (\<lambda>a. 1 \<le> a \<and> a \<le> 5) [s - 1, s + 1];
               similar_cases = filter (\<lambda>h. crime_type h = c \<and> severity_score h \<in> set adjacent) dataset
           in if similar_cases \<noteq> [] then
                bind_err (get_stats similar_cases) (\<lambda>st.
                bind_err (stats_field st case_count) (\<lambda>n.
                Inr \<lparr>status = ''Success (Estimated)'', data = st,
                     basis = ''Estimate based on '' @ str_nat n @ '' case(s) with similar severity.''\<rparr>))
              else Inr \<lparr>status = ''Failed'', data = None,
                        basis = ''No historical data found for this crime type.''\<rparr>)"

definition historical_data :: "hist_case list" where
  "historical_data =
     [\<lparr>hist_case_id = ''HN001'', crime_type = ''Theft'', severity_score = 2, sentence_given_months = 3\<rparr>,
      \<lparr>hist_case_id = ''HN002'', crime_type = ''Assault'', severity_score = 3, sentence_given_months = 12\<rparr>,
      \<lparr>hist_case_id = ''HN003'', crime_type = ''Burglary'', severity_score = 4, sentence_given_months = 24\<rparr>,
      \<lparr>hist_case_id = ''HN004'', crime_type = ''Fraud'', severity_score = 5, sentence_given_months = 60\<rparr>,
      \<lparr>hist_case_id = ''HN005'', crime_type = ''Theft'', severity_score = 2, sentence_given_months = 4\<rparr>,
      \<lparr>hist_case_id = ''HN006'', crime_type = ''Vandalism'', severity_score = 1, sentence_given_months = 1\<rparr>,
      \<lparr>hist_case_id = ''HN007'', crime_type = ''Burglary'', severity_score = 4, sentence_given_months = 30\<rparr>,
      \<lparr>hist_case_id = ''HN008'', crime_type = ''Assault'', severity_score = 4, sentence_given_months = 18\<rparr>,
      \<lparr>hist_case_id = ''HN009'', crime_type = ''Theft'', severity_score = 3, sentence_given_months = 6\<rparr>,
      \<lparr>hist_case_id = ''HN010'', crime_type = ''Burglary'', severity_score = 4, sentence_given_months = 28\<rparr>]"

definition api_recommend_sentence :: "string \<Rightarrow> int \<Rightarrow> py_error + sentencing_result" where
  "api_recommend_sentence c s = recommend_sentence historical_data c s"


section \<open>Person 6: System Architect\<close>

text \<open>
  \<^verbatim>\<open>case_files_db\<close> is a Python dictionary: keys are unique and keep their insertion
  order. It is an association list, read with \<open>map_of\<close>; \<open>AList.update\<close> replaces the
  value of a present key in place and appends an absent key at the end. The handlers
  take the dictionary and return the new one with their response. The wall-clock
  timestamp taken by \<^verbatim>\<open>add_evidence\<close> is the argument \<open>now\<close>.
\<close>

record evidence_entry =
  evidence_item :: string
  timestamp :: string

record CriminalCase =
  case_id :: string
  defendant_name :: string
  evidence_log :: "evidence_entry list"
  case_status :: string

type_synonym case_files = "(string \<times> CriminalCase) list"

text \<open>
  The handlers answer with a dictionary holding \<^verbatim>\<open>status\<close> and either \<^verbatim>\<open>data\<close> or
  \<^verbatim>\<open>message\<close>; the key that is absent is \<open>None\<close>.
\<close>

record 'a api_response =
  resp_status :: string
  resp_message :: "string option"
  resp_data :: "'a option"

definition case_files_db :: case_files where
  "case_files_db = []"

definition init_case :: "string \<Rightarrow> string \<Rightarrow> CriminalCase" where
  "init_case cid name =
     \<lparr>case_id = cid, defendant_name = name, evidence_log = [], case_status = ''Investigation''\<rparr>"

definition add_evidence :: "CriminalCase \<Rightarrow> string \<Rightarrow> string \<Rightarrow> CriminalCase" where
  "add_evidence c item now =
     c\<lparr>evidence_log := evidence_log c @ [\<lparr>evidence_item = item, timestamp = now\<rparr>]\<rparr>"

definition update_status :: "CriminalCase \<Rightarrow> string \<Rightarrow> CriminalCase" where
  "update_status c new_status = c\<lparr>case_status := new_status\<rparr>"

definition success :: "'a \<Rightarrow> 'a api_response" where
  "success d = \<lparr>resp_status = ''success'', resp_message = None, resp_data = Some d\<rparr>"

definition not_found :: "'a api_response" where
  "not_found = \<lparr>resp_status = ''not_found'', resp_message = Some ''Case not found.'', resp_data = None\<rparr>"

definition api_get_all_cases :: "case_files \<Rightarrow> CriminalCase list api_response" where
  "api_get_all_cases db = success (map snd db)"

definition api_create_case :: "case_files \<Rightarrow> string \<Rightarrow> string \<Rightarrow> case_files \<times> CriminalCase api_response" where
  "api_create_case db cid name =
     (if map_of db cid \<noteq> None then
        (db, \<lparr>resp_status = ''error'', resp_message = Some ''Case ID already exists.'', resp_data = None\<rparr>)
      else let new_case = init_case cid name
           in (AList.update cid new_case db, success new_case))"

definition api_get_case :: "case_files \<Rightarrow> string \<Rightarrow> CriminalCase api_response" where
  "api_get_case db cid =
     (case map_of db cid of Some c \<Rightarrow> success c | None \<Rightarrow> not_found)"

definition api_add_evidence :: "case_files \<Rightarrow> string \<Rightarrow> string \<Rightarrow> string \<Rightarrow> case_files \<times> CriminalCase api_response" where
  "api_add_evidence db cid item now =
     (case map_of db cid of
        Some c \<Rightarrow> (let c' = add_evidence c item now in (AList.update cid c' db, success c'))
      | None \<Rightarrow> (db, not_found))"

definition api_update_status :: "case_files \<Rightarrow> string \<Rightarrow> string \<Rightarrow> case_files \<times> CriminalCase api_response" where
  "api_update_status db cid new_status =
     (case map_of db cid of
        Some c \<Rightarrow> (let c' = update_status c new_status in (AList.update cid c' db, success c'))
      | None \<Rightarrow> (db, not_found))"

text \<open>A request to one of the five case-file endpoints, and the dictionary after serving it.\<close>

datatype request =
    GetAllCases
  | CreateCase string string
  | GetCase string
  | AddEvidence string string string
  | UpdateStatus string string

fun serve :: "case_files \<Rightarrow> request \<Rightarrow> case_files" where
  "serve db GetAllCases = db"
| "serve db (CreateCase cid name) = fst (api_create_case db cid name)"
| "serve db (GetCase cid) = db"
| "serve db (AddEvidence cid item now) = fst (api_add_evidence db cid item now)"
| "serve db (UpdateStatus cid new_status) = fst (api_update_status db cid new_status)"

section \<open>The tiers and the statistics as the specification words them\<close>

definition exact_mean :: "int list \<Rightarrow> rat" where
  "exact_mean xs = of_int (sum_list xs) / of_int (int (length xs))"

definition spec_direct_matches :: "hist_case list \<Rightarrow> string \<Rightarrow> int \<Rightarrow> hist_case list" where
  "spec_direct_matches dataset c s =
     filter (\<lambda>h. crime_type h = c \<and> severity_score h = s) dataset"

definition spec_adjacent_matches :: "hist_case list \<Rightarrow> string \<Rightarrow> int \<Rightarrow> hist_case list" where
  "spec_adjacent_matches dataset c s =
     filter (\<lambda>h. crime_type h = c \<and>
                 (severity_score h = s - 1 \<and> 1 \<le> s - 1 \<and> s - 1 \<le> 5 \<or>
                  severity_score h = s + 1 \<and> 1 \<le> s + 1 \<and> s + 1 \<le> 5)) dataset"

definition spec_statistics :: "hist_case list \<Rightarrow> stats" where
  "spec_statistics cases =
     (let xs = map sentence_given_months cases
      in \<lparr>recommendation_months = fl53 (round_decimal (exact_mean xs) 1),
          min_sentence = Min (set xs), max_sentence = Max (set xs),
          case_count = length cases\<rparr>)"

text \<open>
  The statistics as the advisor computes them: the mean is the float quotient of sum and
  count, and the rounding to one decimal is applied to that float.
\<close>

definition float_statistics :: "hist_case list \<Rightarrow> stats" where
  "float_statistics cases =
     (let xs = map sentence_given_months cases
      in \<lparr>recommendation_months = fl53 (round_decimal (fl53 (exact_mean xs)) 1),
          min_sentence = Min (set xs), max_sentence = Max (set xs),
          case_count = length cases\<rparr>)"

section \<open>Properties of the float operations and of the advisor\<close>

lemma pow2_powi: "pow2 e = 2 powi e"
  by (simp add: pow2_def power_int_def power_inverse [symmetric] inverse_eq_divide flip: power_one_over)

lemma pow2_pos: "0 < pow2 e"
  by (simp add: pow2_powi)

lemma pow2_add: "pow2 (a + b) = pow2 a * pow2 b"
  by (simp add: pow2_powi power_int_add)

lemma pow2_mono: "a \<le> b \<Longrightarrow> pow2 a \<le> pow2 b"
  by (simp add: pow2_powi power_int_increasing)

lemma pow2_nat: "pow2 (int n) = 2 ^ n"
  by (simp add: pow2_def)

lemma pow2_of_int: "0 \<le> e \<Longrightarrow> pow2 e = of_int (2 ^ nat e)"
  by (simp add: pow2_def)

lemma flog2_bounds:
  assumes "0 < x"
  shows "pow2 (flog2 x) \<le> x" and "x < pow2 (flog2 x + 1)"
proof -
  obtain p q where pq: "quotient_of x = (p, q)" by (cases "quotient_of x")
  have q: "0 < q" using pq by (rule quotient_of_denom_pos)
  have x: "x = of_int p / of_int q" using pq by (rule quotient_of_div)
  have p: "0 < p" using assms q x by (simp add: zero_less_divide_iff)
  define bp bq where "bp = bitlen p" and "bq = bitlen q"
  have bp: "2 ^ nat (bp - 1) \<le> p" "p < 2 ^ nat bp" using bitlen_bounds [OF p] by (simp_all add: bp_def)
  have bq: "2 ^ nat (bq - 1) \<le> q" "q < 2 ^ nat bq" using bitlen_bounds [OF q] by (simp_all add: bq_def)
  have bp1: "1 \<le> bp" using p bitlen_eq_zero_iff [of p] bitlen_nonneg [of p] by (simp add: bp_def)
  have bq1: "1 \<le> bq" using q bitlen_eq_zero_iff [of q] bitlen_nonneg [of q] by (simp add: bq_def)
  have P1: "pow2 (bp - 1) \<le> of_int p" using bp(1) bp1 by (simp add: pow2_of_int)
  have P2: "of_int p < pow2 bp" using bp(2) bp1 by (simp add: pow2_of_int)
  have Q1: "pow2 (bq - 1) \<le> of_int q" using bq(1) bq1 by (simp add: pow2_of_int)
  have Q2: "of_int q < pow2 bq" using bq(2) bq1 by (simp add: pow2_of_int)
  have qpos: "(0::rat) < of_int q" using q by simp
  have lo: "pow2 (bp - bq - 1) < x"
  proof -
    have "pow2 (bp - bq - 1) * of_int q < pow2 (bp - bq - 1) * pow2 bq"
      using Q2 pow2_pos by simp
    also have "\<dots> = pow2 (bp - 1)" by (simp add: pow2_add [symmetric])
    also have "\<dots> \<le> of_int p" by (rule P1)
    finally show ?thesis using qpos by (simp add: x pos_less_divide_eq)
  qed
  have hi: "x < pow2 (bp - bq + 1)"
  proof -
    have "of_int p < pow2 bp" by (rule P2)
    also have "\<dots> = pow2 (bp - bq + 1) * pow2 (bq - 1)" by (simp add: pow2_add [symmetric])
    also have "\<dots> \<le> pow2 (bp - bq + 1) * of_int q"
      using Q1 pow2_pos [of "bp - bq + 1"] by simp
    finally show ?thesis using qpos by (simp add: x pos_divide_less_eq)
  qed
  have fl: "flog2 x = (if pow2 (bp - bq) \<le> x then bp - bq else bp - bq - 1)"
    by (simp add: flog2_def pq bp_def bq_def Let_def)
  show "pow2 (flog2 x) \<le> x" using lo by (simp add: fl)
  show "x < pow2 (flog2 x + 1)" using hi by (auto simp add: fl not_le)
qed

lemma round_half_even_of_int: "round_half_even (of_int k) = k"
  by (simp add: round_half_even_def)

lemma round_half_even_cases: "round_half_even t = \<lfloor>t\<rfloor> \<or> round_half_even t = \<lfloor>t\<rfloor> + 1"
  by (simp add: round_half_even_def Let_def)

lemma round_half_even_ge:
  assumes "of_int k \<le> t"
  shows "k \<le> round_half_even t"
proof -
  have "k \<le> \<lfloor>t\<rfloor>" using assms by (simp add: le_floor_iff)
  then show ?thesis using round_half_even_cases [of t] by linarith
qed

lemma round_half_even_le:
  assumes "t \<le> of_int k"
  shows "round_half_even t \<le> k"
proof (cases "t = of_int k")
  case True
  then show ?thesis by (simp add: round_half_even_of_int)
next
  case False
  then have "t < of_int k" using assms by simp
  then have "\<lfloor>t\<rfloor> < k" by (simp add: floor_less_iff)
  then show ?thesis using round_half_even_cases [of t] by linarith
qed


lemma pow2_strict_mono: "a < b \<Longrightarrow> pow2 a < pow2 b"
  by (simp add: pow2_powi power_int_strict_increasing)

lemma pow2_le_iff: "pow2 a \<le> pow2 b \<longleftrightarrow> a \<le> b"
  using pow2_strict_mono [of b a] pow2_mono [of a b] by (auto simp: not_le [symmetric])

lemma grid_ge:
  assumes "0 < u" and "of_int k * u \<le> x"
  shows "of_int k * u \<le> of_int (round_half_even (x / u)) * u"
proof -
  have "of_int k \<le> x / u" using assms by (simp add: pos_le_divide_eq)
  then have "k \<le> round_half_even (x / u)" by (rule round_half_even_ge)
  then have "(of_int k :: rat) \<le> of_int (round_half_even (x / u))" by simp
  then show ?thesis using assms(1) by (simp add: mult_right_mono)
qed

lemma grid_le:
  assumes "0 < u" and "x \<le> of_int k * u"
  shows "of_int (round_half_even (x / u)) * u \<le> of_int k * u"
proof -
  have "x / u \<le> of_int k" using assms by (simp add: pos_divide_le_eq)
  then have "round_half_even (x / u) \<le> k" by (rule round_half_even_le)
  then have "(of_int (round_half_even (x / u)) :: rat) \<le> of_int k" by simp
  then show ?thesis using assms(1) by (simp add: mult_right_mono)
qed

lemma int_on_grid:
  assumes "e \<le> 52"
  shows "(of_int a :: rat) = of_int (a * 2 ^ nat (52 - e)) * pow2 (e - 52)"
proof -
  have "pow2 (52 - e) * pow2 (e - 52) = pow2 0" by (simp add: pow2_add [symmetric])
  moreover have "pow2 (52 - e) = 2 ^ nat (52 - e)" using assms by (simp add: pow2_def)
  ultimately have "(2::rat) ^ nat (52 - e) * pow2 (e - 52) = 1" by (simp add: pow2_def)
  then show ?thesis by (simp add: mult.assoc)
qed

lemma fl53_zero: "fl53 0 = 0"
  by (simp add: fl53_def round_half_even_def Let_def)

lemma fl53_nonneg:
  assumes "0 \<le> x"
  shows "0 \<le> fl53 x"
proof -
  define u where "u = pow2 (max (flog2 \<bar>x\<bar>) (- 1022) - 52)"
  have u: "0 < u" by (simp add: u_def pow2_pos)
  have "of_int 0 * u \<le> of_int (round_half_even (x / u)) * u"
    using u assms by (intro grid_ge) simp_all
  then show ?thesis by (simp add: fl53_def Let_def u_def)
qed

lemma flog2_nonneg:
  assumes "1 \<le> x"
  shows "0 \<le> flog2 x"
proof -
  have "pow2 0 \<le> x" using assms by (simp add: pow2_def)
  also have "x < pow2 (flog2 x + 1)" using assms by (intro flog2_bounds) simp
  finally have "0 < flog2 x + 1" using pow2_le_iff [of "flog2 x + 1" 0] by (simp add: not_le [symmetric])
  then show ?thesis by simp
qed

lemma fl53_ge_int:
  assumes "0 \<le> a" and "a \<le> 2 ^ 53" and "of_int a \<le> x"
  shows "of_int a \<le> fl53 x"
proof (cases "a = 0")
  case True
  then show ?thesis using assms fl53_nonneg [of x] by simp
next
  case False
  then have a1: "1 \<le> a" using assms(1) by simp
  then have "(1::rat) \<le> of_int a" by simp
  then have x1: "1 \<le> x" using assms(3) by linarith
  then have xpos: "0 < x" by simp
  define e where "e = flog2 x"
  have e0: "0 \<le> e" using x1 by (simp add: e_def flog2_nonneg)
  define u where "u = pow2 (e - 52)"
  have u: "0 < u" by (simp add: u_def pow2_pos)
  have fl: "fl53 x = of_int (round_half_even (x / u)) * u"
    using e0 xpos by (simp add: fl53_def Let_def u_def e_def max_def)
  show ?thesis
  proof (cases "e \<le> 52")
    case True
    have "(of_int a :: rat) = of_int (a * 2 ^ nat (52 - e)) * u"
      unfolding u_def using True by (rule int_on_grid)
    moreover from this have "of_int (a * 2 ^ nat (52 - e)) * u \<le> x" using assms(3) by linarith
    then have "of_int (a * 2 ^ nat (52 - e)) * u \<le> of_int (round_half_even (x / u)) * u"
      by (rule grid_ge [OF u])
    ultimately show ?thesis unfolding fl by linarith
  next
    case False
    then have e53: "53 \<le> e" by simp
    have "of_int (2 ^ 52) * u = pow2 52 * pow2 (e - 52)" by (simp add: u_def pow2_def)
    also have "\<dots> = pow2 e" by (simp add: pow2_add [symmetric])
    finally have g: "of_int (2 ^ 52) * u = pow2 e" .
    have "pow2 e \<le> x" unfolding e_def using xpos by (rule flog2_bounds)
    then have "of_int (2 ^ 52) * u \<le> x" using g by linarith
    then have "of_int (2 ^ 52) * u \<le> of_int (round_half_even (x / u)) * u"
      by (rule grid_ge [OF u])
    then have "pow2 e \<le> fl53 x" unfolding fl using g by linarith
    moreover have "pow2 53 \<le> pow2 e" using e53 by (rule pow2_mono)
    moreover have "(of_int a :: rat) \<le> pow2 53"
    proof -
      have "(of_int a :: rat) \<le> of_int (2 ^ 53)" using assms(2) by (simp only: of_int_le_iff)
      then show ?thesis by (simp add: pow2_def)
    qed
    ultimately show ?thesis by linarith
  qed
qed

lemma fl53_le_int:
  assumes "0 \<le> x" and "x \<le> of_int b" and "b \<le> 2 ^ 53"
  shows "fl53 x \<le> of_int b"
proof (cases "x = 0")
  case True
  then show ?thesis using assms by (simp add: fl53_zero)
next
  case False
  then have xpos: "0 < x" using assms(1) by simp
  define e where "e = max (flog2 x) (- 1022)"
  define u where "u = pow2 (e - 52)"
  have u: "0 < u" by (simp add: u_def pow2_pos)
  have fl: "fl53 x = of_int (round_half_even (x / u)) * u"
    using xpos by (simp add: fl53_def Let_def u_def e_def)
  have b53: "(of_int b :: rat) \<le> pow2 53"
  proof -
    have "(of_int b :: rat) \<le> of_int (2 ^ 53)" using assms(3) by (simp only: of_int_le_iff)
    then show ?thesis by (simp add: pow2_def)
  qed
  have lo: "pow2 (flog2 x) \<le> x" using xpos by (rule flog2_bounds)
  then have "pow2 (flog2 x) \<le> pow2 53" using assms(2) b53 by linarith
  then have f53: "flog2 x \<le> 53" by (simp add: pow2_le_iff)
  then have e53: "e \<le> 53" by (simp add: e_def)
  show ?thesis
  proof (cases "e \<le> 52")
    case True
    have "(of_int b :: rat) = of_int (b * 2 ^ nat (52 - e)) * u"
      unfolding u_def using True by (rule int_on_grid)
    moreover from this have "x \<le> of_int (b * 2 ^ nat (52 - e)) * u" using assms(2) by linarith
    then have "of_int (round_half_even (x / u)) * u \<le> of_int (b * 2 ^ nat (52 - e)) * u"
      by (rule grid_le [OF u])
    ultimately show ?thesis unfolding fl by linarith
  next
    case False
    then have e_eq: "e = 53" using e53 by simp
    then have fe: "flog2 x = 53" by (simp add: e_def max_def split: if_splits)
    have "of_int (2 ^ 52) * u = pow2 52 * pow2 (e - 52)" by (simp add: u_def pow2_def)
    also have "\<dots> = pow2 53" by (simp add: pow2_add [symmetric] e_eq)
    finally have g: "of_int (2 ^ 52) * u = pow2 53" .
    have "x \<le> pow2 53" using assms(2) b53 by linarith
    then have "x \<le> of_int (2 ^ 52) * u" using g by linarith
    then have "of_int (round_half_even (x / u)) * u \<le> of_int (2 ^ 52) * u"
      by (rule grid_le [OF u])
    then have "fl53 x \<le> pow2 53" unfolding fl using g by linarith
    moreover have "pow2 53 \<le> x" using lo by (simp add: fe)
    ultimately show ?thesis using assms(2) by linarith
  qed
qed


lemma two_53_lt_1024: "(2::rat) ^ 53 < 2 ^ 1024"
  by (rule power_strict_increasing) simp_all

lemma no_overflow:
  assumes "0 \<le> r" and "r \<le> of_int hi" and "hi \<le> 2 ^ 53"
  shows "\<not> (2::rat) ^ 1024 \<le> \<bar>r\<bar>"
proof -
  have "(of_int hi :: rat) \<le> of_int (2 ^ 53)" using assms(3) by (simp only: of_int_le_iff)
  then have "r \<le> 2 ^ 53" using assms(2) by simp
  then show ?thesis using assms(1) two_53_lt_1024 by linarith
qed

lemma py_truediv_bounds:
  assumes "0 < b" and "0 \<le> lo" and "hi \<le> 2 ^ 53"
    and "lo * b \<le> a" and "a \<le> hi * b"
  shows "py_truediv a b = Inr (fl53 (of_int a / of_int b))"
    and "of_int lo \<le> fl53 (of_int a / of_int b)"
    and "fl53 (of_int a / of_int b) \<le> of_int hi"
proof -
  define x :: rat where "x = of_int a / of_int b"
  have bpos: "(0::rat) < of_int b" using assms(1) by simp
  have "(of_int (lo * b) :: rat) \<le> of_int a" using assms(4) by (simp only: of_int_le_iff)
  then have lo: "of_int lo \<le> x" using bpos by (simp add: x_def pos_le_divide_eq)
  have "(of_int a :: rat) \<le> of_int (hi * b)" using assms(5) by (simp only: of_int_le_iff)
  then have hi: "x \<le> of_int hi" using bpos by (simp add: x_def pos_divide_le_eq)
  have "(0::rat) \<le> of_int lo" using assms(2) by simp
  then have x0: "0 \<le> x" using lo by linarith
  have "(of_int lo :: rat) \<le> of_int hi" using lo hi by linarith
  then have lohi: "lo \<le> hi" by (simp only: of_int_le_iff)
  have L: "of_int lo \<le> fl53 x" using assms(2) lohi assms(3) lo by (intro fl53_ge_int) simp_all
  have H: "fl53 x \<le> of_int hi" using x0 hi assms(3) by (rule fl53_le_int)
  have "0 \<le> fl53 x" using x0 by (rule fl53_nonneg)
  then have "\<not> (2::rat) ^ 1024 \<le> \<bar>fl53 x\<bar>" using H assms(3) by (rule no_overflow)
  then show "py_truediv a b = Inr (fl53 (of_int a / of_int b))"
    using assms(1) by (simp add: py_truediv_def Let_def x_def)
  show "of_int lo \<le> fl53 (of_int a / of_int b)" using L by (simp add: x_def)
  show "fl53 (of_int a / of_int b) \<le> of_int hi" using H by (simp add: x_def)
qed

lemma round_decimal_bounds:
  assumes "of_int lo \<le> x" and "x \<le> of_int hi"
  shows "of_int lo \<le> round_decimal x n" and "round_decimal x n \<le> of_int hi"
proof -
  have "of_int (lo * 10 ^ n) \<le> x * 10 ^ n" using assms(1) by simp
  then have "lo * 10 ^ n \<le> round_half_even (x * 10 ^ n)" by (rule round_half_even_ge)
  then have "(of_int (lo * 10 ^ n) :: rat) \<le> of_int (round_half_even (x * 10 ^ n))"
    by (simp only: of_int_le_iff)
  then show "of_int lo \<le> round_decimal x n"
    by (simp add: round_decimal_def pos_le_divide_eq)
  have "x * 10 ^ n \<le> of_int (hi * 10 ^ n)" using assms(2) by simp
  then have "round_half_even (x * 10 ^ n) \<le> hi * 10 ^ n" by (rule round_half_even_le)
  then have "(of_int (round_half_even (x * 10 ^ n)) :: rat) \<le> of_int (hi * 10 ^ n)"
    by (simp only: of_int_le_iff)
  then show "round_decimal x n \<le> of_int hi"
    by (simp add: round_decimal_def pos_divide_le_eq)
qed

lemma py_round_bounds:
  assumes "0 \<le> lo" and "hi \<le> 2 ^ 53" and "of_int lo \<le> x" and "x \<le> of_int hi"
  shows "py_round x n = Inr (fl53 (round_decimal x n))"
    and "of_int lo \<le> fl53 (round_decimal x n)"
    and "fl53 (round_decimal x n) \<le> of_int hi"
proof -
  define y where "y = round_decimal x n"
  have lo: "of_int lo \<le> y" unfolding y_def using assms(3,4) by (rule round_decimal_bounds)
  have hi: "y \<le> of_int hi" unfolding y_def using assms(3,4) by (rule round_decimal_bounds)
  have "(0::rat) \<le> of_int lo" using assms(1) by simp
  then have y0: "0 \<le> y" using lo by linarith
  have "(of_int lo :: rat) \<le> of_int hi" using lo hi by linarith
  then have lohi: "lo \<le> hi" by (simp only: of_int_le_iff)
  have L: "of_int lo \<le> fl53 y" using assms(1) lohi assms(2) lo by (intro fl53_ge_int) simp_all
  have H: "fl53 y \<le> of_int hi" using y0 hi assms(2) by (rule fl53_le_int)
  have "0 \<le> fl53 y" using y0 by (rule fl53_nonneg)
  then have "\<not> (2::rat) ^ 1024 \<le> \<bar>fl53 y\<bar>" using H assms(2) by (rule no_overflow)
  then show "py_round x n = Inr (fl53 (round_decimal x n))"
    by (simp add: py_round_def Let_def y_def)
  show "of_int lo \<le> fl53 (round_decimal x n)" using L by (simp add: y_def)
  show "fl53 (round_decimal x n) \<le> of_int hi" using H by (simp add: y_def)
qed

lemma sum_list_ge: "(\<forall>x\<in>set xs. lo \<le> x) \<Longrightarrow> lo * int (length xs) \<le> sum_list xs"
  by (induction xs) (auto simp: algebra_simps)

lemma sum_list_le: "(\<forall>x\<in>set xs. x \<le> hi) \<Longrightarrow> sum_list xs \<le> hi * int (length xs)"
  by (induction xs) (auto simp: algebra_simps)

lemma py_min_Min:
  assumes "xs \<noteq> []"
  shows "py_min xs = Inr (Min (set xs))"
proof (cases xs)
  case Nil
  then show ?thesis using assms by simp
next
  case (Cons a list)
  then show ?thesis using Min.set_eq_fold [of a list] by simp
qed

lemma py_max_Max:
  assumes "xs \<noteq> []"
  shows "py_max xs = Inr (Max (set xs))"
proof (cases xs)
  case Nil
  then show ?thesis using assms by simp
next
  case (Cons a list)
  then show ?thesis using Max.set_eq_fold [of a list] by simp
qed

lemma get_stats_bounded:
  assumes ne: "cases \<noteq> []"
    and bd: "\<forall>h\<in>set cases. 0 \<le> sentence_given_months h \<and> sentence_given_months h \<le> 2 ^ 53"
  defines "xs \<equiv> map sentence_given_months cases"
  defines "r \<equiv> fl53 (round_decimal (fl53 (of_int (sum_list xs) / of_int (int (length xs)))) 1)"
  shows "get_stats cases = Inr (Some \<lparr>recommendation_months = r, min_sentence = Min (set xs),
            max_sentence = Max (set xs), case_count = length cases\<rparr>)"
    and "of_int (Min (set xs)) \<le> r" and "r \<le> of_int (Max (set xs))"
proof -
  have xne: "xs \<noteq> []" using ne by (simp add: xs_def)
  have fin: "finite (set xs)" by simp
  have sne: "set xs \<noteq> {}" using xne by simp
  define lo hi where "lo = Min (set xs)" and "hi = Max (set xs)"
  have lo_in: "lo \<in> set xs" unfolding lo_def using fin sne by (rule Min_in)
  have hi_in: "hi \<in> set xs" unfolding hi_def using fin sne by (rule Max_in)
  have all: "\<forall>x\<in>set xs. 0 \<le> x \<and> x \<le> 2 ^ 53" using bd by (simp add: xs_def)
  have lo0: "0 \<le> lo" using all lo_in by blast
  have hi53: "hi \<le> 2 ^ 53" using all hi_in by blast
  have "\<forall>x\<in>set xs. lo \<le> x" by (simp add: lo_def)
  then have s1: "lo * int (length xs) \<le> sum_list xs" by (rule sum_list_ge)
  have "\<forall>x\<in>set xs. x \<le> hi" by (simp add: hi_def)
  then have s2: "sum_list xs \<le> hi * int (length xs)" by (rule sum_list_le)
  have lpos: "0 < int (length xs)" using xne by simp
  note td = py_truediv_bounds [OF lpos lo0 hi53 s1 s2]
  note rd = py_round_bounds [OF lo0 hi53 td(2) td(3), of 1]
  show "get_stats cases = Inr (Some \<lparr>recommendation_months = r, min_sentence = Min (set xs),
            max_sentence = Max (set xs), case_count = length cases\<rparr>)"
    using ne td(1) rd(1) py_min_Min [OF xne] py_max_Max [OF xne]
    by (simp add: get_stats_def Let_def bind_err_def xs_def r_def)
  show "of_int (Min (set xs)) \<le> r" using rd(2) by (simp add: r_def lo_def)
  show "r \<le> of_int (Max (set xs))" using rd(3) by (simp add: r_def hi_def)
qed


lemma similar_cases_eq:
  "filter (\<lambda>h. crime_type h = c \<and>
       severity_score h \<in> set (filter (\<lambda>a. 1 \<le> a \<and> a \<le> 5) [s - 1, s + 1])) dataset
   = spec_adjacent_matches dataset c s"
  unfolding spec_adjacent_matches_def by (rule filter_cong) auto

lemma recommend_sentence_tiers:
  fixes dataset :: "hist_case list" and c :: string and s :: int
  defines "M \<equiv> spec_direct_matches dataset c s"
  defines "S \<equiv> spec_adjacent_matches dataset c s"
  shows "recommend_sentence dataset c s =
    (if M \<noteq> [] then
       bind_err (get_stats M) (\<lambda>st. bind_err (stats_field st case_count) (\<lambda>n.
         Inr \<lparr>status = ''Success'', data = st,
              basis = ''Direct match from '' @ str_nat n @ '' historical case(s).''\<rparr>))
     else if S \<noteq> [] then
       bind_err (get_stats S) (\<lambda>st. bind_err (stats_field st case_count) (\<lambda>n.
         Inr \<lparr>status = ''Success (Estimated)'', data = st,
              basis = ''Estimate based on '' @ str_nat n @ '' case(s) with similar severity.''\<rparr>))
     else Inr \<lparr>status = ''Failed'', data = None,
               basis = ''No historical data found for this crime type.''\<rparr>)"
  unfolding recommend_sentence_def Let_def M_def S_def spec_direct_matches_def
    similar_cases_eq [symmetric] ..

lemma recommend_sentence_bounded:
  fixes dataset :: "hist_case list" and c :: string and s :: int
  assumes bd: "\<forall>h\<in>set dataset. 0 \<le> sentence_given_months h \<and> sentence_given_months h \<le> 2 ^ 53"
  defines "M \<equiv> spec_direct_matches dataset c s"
  defines "S \<equiv> spec_adjacent_matches dataset c s"
  shows "recommend_sentence dataset c s =
    (if M \<noteq> [] then
       bind_err (get_stats M) (\<lambda>st. Inr \<lparr>status = ''Success'', data = st,
          basis = ''Direct match from '' @ str_nat (length M) @ '' historical case(s).''\<rparr>)
     else if S \<noteq> [] then
       bind_err (get_stats S) (\<lambda>st. Inr \<lparr>status = ''Success (Estimated)'', data = st,
          basis = ''Estimate based on '' @ str_nat (length S) @ '' case(s) with similar severity.''\<rparr>)
     else Inr \<lparr>status = ''Failed'', data = None,
               basis = ''No historical data found for this crime type.''\<rparr>)"
proof -
  have bM: "\<forall>h\<in>set M. 0 \<le> sentence_given_months h \<and> sentence_given_months h \<le> 2 ^ 53"
    using bd by (simp add: M_def spec_direct_matches_def)
  have bS: "\<forall>h\<in>set S. 0 \<le> sentence_given_months h \<and> sentence_given_months h \<le> 2 ^ 53"
    using bd by (simp add: S_def spec_adjacent_matches_def)
  have gM: "M \<noteq> [] \<Longrightarrow> \<exists>st. get_stats M = Inr (Some st) \<and> case_count st = length M"
    using get_stats_bounded(1) [OF _ bM] by simp
  have gS: "S \<noteq> [] \<Longrightarrow> \<exists>st. get_stats S = Inr (Some st) \<and> case_count st = length S"
    using get_stats_bounded(1) [OF _ bS] by simp
  note raw = recommend_sentence_tiers [of dataset c s, folded M_def S_def]
  show ?thesis
  proof (cases "M = []")
    case False
    then obtain st where "get_stats M = Inr (Some st)" "case_count st = length M" using gM by blast
    then show ?thesis using False
      by (simp add: raw bind_err_def stats_field_def)
  next
    case True
    show ?thesis
    proof (cases "S = []")
      case False
      then obtain st where "get_stats S = Inr (Some st)" "case_count st = length S" using gS by blast
      then show ?thesis using False True
        by (simp add: raw bind_err_def stats_field_def)
    next
      case T2: True
      then show ?thesis using True
        by (simp add: raw)
    qed
  qed
qed

section \<open>The historical table\<close>

lemma hist_bounded:
  "\<forall>h\<in>set historical_data. 0 \<le> sentence_given_months h \<and> sentence_given_months h \<le> 2 ^ 53"
  by (simp add: historical_data_def)

lemma crime_type_cases:
  obtains "c = ''Theft''" | "c = ''Assault''" | "c = ''Burglary''" | "c = ''Fraud''"
  | "c = ''Vandalism''"
  | "''Theft'' \<noteq> c" "''Assault'' \<noteq> c" "''Burglary'' \<noteq> c" "''Fraud'' \<noteq> c" "''Vandalism'' \<noteq> c"
  by blast

lemma hist_direct_sentences:
  "map sentence_given_months (spec_direct_matches historical_data c s)
     \<in> {[], [3, 4], [12], [24, 30, 28], [60], [1], [18], [6]}"
  by (cases c rule: crime_type_cases) (simp_all add: spec_direct_matches_def historical_data_def)

lemma hist_adjacent_sentences:
  "map sentence_given_months (spec_adjacent_matches historical_data c s)
     \<in> {[], [3, 4], [12], [24, 30, 28], [60], [1], [18], [6]}"
  by (cases c rule: crime_type_cases) (simp_all add: spec_adjacent_matches_def historical_data_def)

lemma float_mean_agrees:
  assumes "xs \<in> {[3, 4], [12], [24, 30, 28], [60], [1], [18], [6]}"
  shows "fl53 (round_decimal (fl53 (of_int (sum_list xs) / of_int (int (length xs)))) 1)
       = fl53 (round_decimal (exact_mean xs) 1)"
  using assms unfolding exact_mean_def
  by (elim insertE emptyE; hypsubst; code_simp)

lemma get_stats_spec:
  assumes "cases \<noteq> []"
    and "\<forall>h\<in>set cases. 0 \<le> sentence_given_months h \<and> sentence_given_months h \<le> 2 ^ 53"
    and "map sentence_given_months cases \<in> {[], [3, 4], [12], [24, 30, 28], [60], [1], [18], [6]}"
  shows "get_stats cases = Inr (Some (spec_statistics cases))"
proof -
  have "map sentence_given_months cases \<in> {[3, 4], [12], [24, 30, 28], [60], [1], [18], [6]}"
    using assms(1,3) by auto
  then have "fl53 (round_decimal (fl53 (of_int (sum_list (map sentence_given_months cases))
                / of_int (int (length (map sentence_given_months cases))))) 1)
       = fl53 (round_decimal (exact_mean (map sentence_given_months cases)) 1)"
    by (rule float_mean_agrees)
  then show ?thesis
    using get_stats_bounded(1) [OF assms(1,2)] by (simp add: spec_statistics_def Let_def)
qed

lemma filter_bounded:
  "\<forall>h\<in>set (filter P historical_data). 0 \<le> sentence_given_months h \<and> sentence_given_months h \<le> 2 ^ 53"
  using hist_bounded by simp

lemma api_closed_form:
  fixes c :: string and s :: int
  defines "D \<equiv> spec_direct_matches historical_data c s"
  defines "A \<equiv> spec_adjacent_matches historical_data c s"
  shows "api_recommend_sentence c s =
    Inr (if D \<noteq> [] then
           \<lparr>status = ''Success'', data = Some (spec_statistics D),
            basis = ''Direct match from '' @ str_nat (length D) @ '' historical case(s).''\<rparr>
         else if A \<noteq> [] then
           \<lparr>status = ''Success (Estimated)'', data = Some (spec_statistics A),
            basis = ''Estimate based on '' @ str_nat (length A) @ '' case(s) with similar severity.''\<rparr>
         else \<lparr>status = ''Failed'', data = None,
               basis = ''No historical data found for this crime type.''\<rparr>)"
proof -
  have gD: "D \<noteq> [] \<Longrightarrow> get_stats D = Inr (Some (spec_statistics D))"
    unfolding D_def
    using filter_bounded [of "\<lambda>h. crime_type h = c \<and> severity_score h = s"] hist_direct_sentences [of c s]
    by (intro get_stats_spec) (simp_all add: spec_direct_matches_def)
  have gA: "A \<noteq> [] \<Longrightarrow> get_stats A = Inr (Some (spec_statistics A))"
    unfolding A_def
    using hist_bounded hist_adjacent_sentences [of c s]
    by (intro get_stats_spec) (simp_all add: spec_adjacent_matches_def)
  note raw = recommend_sentence_bounded [OF hist_bounded, of c s, folded D_def A_def]
  show ?thesis
    unfolding api_recommend_sentence_def
    using gD gA by (simp add: raw bind_err_def)
qed

section \<open>The sentencing advisor\<close>

lemma theft_2_matches:
  "spec_direct_matches historical_data ''Theft'' 2 = [historical_data ! 0, historical_data ! 4]"
  by (simp add: spec_direct_matches_def historical_data_def)

lemma theft_2_values:
  "spec_statistics [historical_data ! 0, historical_data ! 4] =
     \<lparr>recommendation_months = 7 / 2, min_sentence = 3, max_sentence = 4, case_count = 2\<rparr>"
  "''Direct match from '' @ str_nat (length [historical_data ! 0, historical_data ! 4])
     @ '' historical case(s).'' = ''Direct match from 2 historical case(s).''"
  by code_simp+

text \<open>
  Claim C1. Whenever the historical table holds at least one case whose crime type and
  severity score both equal the query's, the advisor answers \<^verbatim>\<open>Success\<close> with the
  statistics of exactly those cases: the recommendation is the float written as their
  exact mean rounded to one decimal place, the minimum and maximum are those of their
  sentences, the count is their number, and the basis names that count. For
  \<^verbatim>\<open>("Theft", 2)\<close> this is 3.5, 3, 4 and 2 cases (the witness).
\<close>

theorem direct_match_statistics:
  assumes "spec_direct_matches historical_data c s \<noteq> []"
  shows "api_recommend_sentence c s =
    Inr \<lparr>status = ''Success'',
         data = Some (spec_statistics (spec_direct_matches historical_data c s)),
         basis = ''Direct match from '' @ str_nat (length (spec_direct_matches historical_data c s))
                 @ '' historical case(s).''\<rparr>"
  using assms by (simp add: api_closed_form)

theorem direct_match_statistics_witness:
  "api_recommend_sentence ''Theft'' 2 =
    Inr \<lparr>status = ''Success'',
         data = Some \<lparr>recommendation_months = 7 / 2, min_sentence = 3, max_sentence = 4,
                      case_count = 2\<rparr>,
         basis = ''Direct match from 2 historical case(s).''\<rparr>"
proof -
  have ne: "spec_direct_matches historical_data ''Theft'' 2 \<noteq> []"
    by (simp add: theft_2_matches)
  from direct_match_statistics [OF ne] show ?thesis
    by (simp only: theft_2_matches theft_2_values)
qed


lemma burglary_3_matches:
  "spec_direct_matches historical_data ''Burglary'' 3 = []"
  "spec_adjacent_matches historical_data ''Burglary'' 3 =
     [historical_data ! 2, historical_data ! 6, historical_data ! 9]"
  by (simp_all add: spec_direct_matches_def spec_adjacent_matches_def historical_data_def)

lemma burglary_3_values:
  "spec_statistics [historical_data ! 2, historical_data ! 6, historical_data ! 9] =
     \<lparr>recommendation_months = fl53 (273 / 10), min_sentence = 24, max_sentence = 30, case_count = 3\<rparr>"
  "''Estimate based on '' @ str_nat (length [historical_data ! 2, historical_data ! 6, historical_data ! 9])
     @ '' case(s) with similar severity.'' = ''Estimate based on 3 case(s) with similar severity.''"
  by code_simp+

lemma get_stats_float:
  assumes "cases \<noteq> []"
    and "\<forall>h\<in>set cases. 0 \<le> sentence_given_months h \<and> sentence_given_months h \<le> 2 ^ 53"
  shows "get_stats cases = Inr (Some (float_statistics cases))"
  using get_stats_bounded(1) [OF assms] by (simp add: float_statistics_def Let_def exact_mean_def)

text \<open>
  Claim C2. For every table (with sentences between 0 and \<open>2 ^ 53\<close> months, so that no
  float operation overflows), every crime type and every severity score: when no case
  matches the query exactly but some case of the same crime type has severity one below
  or one above the query's, that neighbour lying in 1..5, the advisor answers
  \<^verbatim>\<open>Success (Estimated)\<close> with the statistics of all those cases pooled, the cases of
  both neighbours counting alike: the mean of their sentences rounded to one decimal
  place as the advisor computes it on floats, their minimum, their maximum and their
  number. The witness pools both neighbours (severities 2 and 4 for the query 3:
  15, 10, 20, 2 cases), leaves out a neighbour outside 1..5 (severity 0 for the query 1),
  and gives 27.3, 24, 30 and 3 cases for \<^verbatim>\<open>("Burglary", 3)\<close> on the historical table.
\<close>

theorem estimated_match_statistics:
  fixes dataset :: "hist_case list" and c :: string and s :: int
  assumes "\<forall>h\<in>set dataset. 0 \<le> sentence_given_months h \<and> sentence_given_months h \<le> 2 ^ 53"
    and "spec_direct_matches dataset c s = []"
    and "spec_adjacent_matches dataset c s \<noteq> []"
  shows "recommend_sentence dataset c s =
    Inr \<lparr>status = ''Success (Estimated)'',
         data = Some (float_statistics (spec_adjacent_matches dataset c s)),
         basis = ''Estimate based on '' @ str_nat (length (spec_adjacent_matches dataset c s))
                 @ '' case(s) with similar severity.''\<rparr>"
proof -
  have b: "\<forall>h\<in>set (spec_adjacent_matches dataset c s).
      0 \<le> sentence_given_months h \<and> sentence_given_months h \<le> 2 ^ 53"
    using assms(1) by (simp add: spec_adjacent_matches_def)
  show ?thesis
    using assms(2,3) get_stats_float [OF assms(3) b]
    by (simp add: recommend_sentence_bounded [OF assms(1)] bind_err_def)
qed

lemma two_neighbours_matches:
  "spec_direct_matches
     [\<lparr>hist_case_id = ''A1'', crime_type = ''Theft'', severity_score = 2, sentence_given_months = 10\<rparr>,
      \<lparr>hist_case_id = ''A2'', crime_type = ''Theft'', severity_score = 4, sentence_given_months = 20\<rparr>] ''Theft'' 3 = []"
  "spec_adjacent_matches
     [\<lparr>hist_case_id = ''A1'', crime_type = ''Theft'', severity_score = 2, sentence_given_months = 10\<rparr>,
      \<lparr>hist_case_id = ''A2'', crime_type = ''Theft'', severity_score = 4, sentence_given_months = 20\<rparr>] ''Theft'' 3 =
     [\<lparr>hist_case_id = ''A1'', crime_type = ''Theft'', severity_score = 2, sentence_given_months = 10\<rparr>,
      \<lparr>hist_case_id = ''A2'', crime_type = ''Theft'', severity_score = 4, sentence_given_months = 20\<rparr>]"
  by (simp_all add: spec_direct_matches_def spec_adjacent_matches_def)

lemma two_neighbours_values:
  "float_statistics
     [\<lparr>hist_case_id = ''A1'', crime_type = ''Theft'', severity_score = 2, sentence_given_months = 10\<rparr>,
      \<lparr>hist_case_id = ''A2'', crime_type = ''Theft'', severity_score = 4, sentence_given_months = 20\<rparr>] =
     \<lparr>recommendation_months = 15, min_sentence = 10, max_sentence = 20, case_count = 2\<rparr>"
  "''Estimate based on '' @ str_nat (length
     [\<lparr>hist_case_id = ''A1'', crime_type = ''Theft'', severity_score = 2, sentence_given_months = 10\<rparr>,
      \<lparr>hist_case_id = ''A2'', crime_type = ''Theft'', severity_score = 4, sentence_given_months = 20\<rparr>]) @ '' case(s) with similar severity.''
     = ''Estimate based on 2 case(s) with similar severity.''"
  by code_simp+

lemma clamped_neighbour_matches:
  "spec_direct_matches
     [\<lparr>hist_case_id = ''B1'', crime_type = ''Theft'', severity_score = 0, sentence_given_months = 100\<rparr>,
      \<lparr>hist_case_id = ''B2'', crime_type = ''Theft'', severity_score = 2, sentence_given_months = 10\<rparr>] ''Theft'' 1 = []"
  "spec_adjacent_matches
     [\<lparr>hist_case_id = ''B1'', crime_type = ''Theft'', severity_score = 0, sentence_given_months = 100\<rparr>,
      \<lparr>hist_case_id = ''B2'', crime_type = ''Theft'', severity_score = 2, sentence_given_months = 10\<rparr>] ''Theft'' 1 =
     [\<lparr>hist_case_id = ''B2'', crime_type = ''Theft'', severity_score = 2, sentence_given_months = 10\<rparr>]"
  by (simp_all add: spec_direct_matches_def spec_adjacent_matches_def)

lemma clamped_neighbour_values:
  "float_statistics
     [\<lparr>hist_case_id = ''B2'', crime_type = ''Theft'', severity_score = 2, sentence_given_months = 10\<rparr>] =
     \<lparr>recommendation_months = 10, min_sentence = 10, max_sentence = 10, case_count = 1\<rparr>"
  "''Estimate based on '' @ str_nat (length
     [\<lparr>hist_case_id = ''B2'', crime_type = ''Theft'', severity_score = 2, sentence_given_months = 10\<rparr>]) @ '' case(s) with similar severity.''
     = ''Estimate based on 1 case(s) with similar severity.''"
  by code_simp+

lemma burglary_3_float_values:
  "float_statistics [historical_data ! 2, historical_data ! 6, historical_data ! 9] =
     \<lparr>recommendation_months = fl53 (273 / 10), min_sentence = 24, max_sentence = 30, case_count = 3\<rparr>"
  by code_simp

theorem estimated_match_statistics_witness:
  "recommend_sentence
     [\<lparr>hist_case_id = ''A1'', crime_type = ''Theft'', severity_score = 2, sentence_given_months = 10\<rparr>,
      \<lparr>hist_case_id = ''A2'', crime_type = ''Theft'', severity_score = 4, sentence_given_months = 20\<rparr>] ''Theft'' 3 =
    Inr \<lparr>status = ''Success (Estimated)'',
         data = Some \<lparr>recommendation_months = 15, min_sentence = 10, max_sentence = 20,
                      case_count = 2\<rparr>,
         basis = ''Estimate based on 2 case(s) with similar severity.''\<rparr>
   \<and> recommend_sentence
     [\<lparr>hist_case_id = ''B1'', crime_type = ''Theft'', severity_score = 0, sentence_given_months = 100\<rparr>,
      \<lparr>hist_case_id = ''B2'', crime_type = ''Theft'', severity_score = 2, sentence_given_months = 10\<rparr>] ''Theft'' 1 =
    Inr \<lparr>status = ''Success (Estimated)'',
         data = Some \<lparr>recommendation_months = 10, min_sentence = 10, max_sentence = 10,
                      case_count = 1\<rparr>,
         basis = ''Estimate based on 1 case(s) with similar severity.''\<rparr>
   \<and> api_recommend_sentence ''Burglary'' 3 =
    Inr \<lparr>status = ''Success (Estimated)'',
         data = Some \<lparr>recommendation_months = fl53 (273 / 10), min_sentence = 24,
                      max_sentence = 30, case_count = 3\<rparr>,
         basis = ''Estimate based on 3 case(s) with similar severity.''\<rparr>"
proof -
  have b1: "\<forall>h\<in>set
     [\<lparr>hist_case_id = ''A1'', crime_type = ''Theft'', severity_score = 2, sentence_given_months = 10\<rparr>,
      \<lparr>hist_case_id = ''A2'', crime_type = ''Theft'', severity_score = 4, sentence_given_months = 20\<rparr>]. 0 \<le> sentence_given_months h \<and> sentence_given_months h \<le> 2 ^ 53"
    by simp
  have n1: "spec_adjacent_matches
     [\<lparr>hist_case_id = ''A1'', crime_type = ''Theft'', severity_score = 2, sentence_given_months = 10\<rparr>,
      \<lparr>hist_case_id = ''A2'', crime_type = ''Theft'', severity_score = 4, sentence_given_months = 20\<rparr>] ''Theft'' 3 \<noteq> []"
    by (simp add: two_neighbours_matches)
  note r1 = estimated_match_statistics [OF b1 two_neighbours_matches(1) n1,
      unfolded two_neighbours_matches two_neighbours_values]
  have b2: "\<forall>h\<in>set
     [\<lparr>hist_case_id = ''B1'', crime_type = ''Theft'', severity_score = 0, sentence_given_months = 100\<rparr>,
      \<lparr>hist_case_id = ''B2'', crime_type = ''Theft'', severity_score = 2, sentence_given_months = 10\<rparr>]. 0 \<le> sentence_given_months h \<and> sentence_given_months h \<le> 2 ^ 53"
    by simp
  have n2: "spec_adjacent_matches
     [\<lparr>hist_case_id = ''B1'', crime_type = ''Theft'', severity_score = 0, sentence_given_months = 100\<rparr>,
      \<lparr>hist_case_id = ''B2'', crime_type = ''Theft'', severity_score = 2, sentence_given_months = 10\<rparr>] ''Theft'' 1 \<noteq> []"
    by (simp add: clamped_neighbour_matches)
  note r2 = estimated_match_statistics [OF b2 clamped_neighbour_matches(1) n2,
      unfolded clamped_neighbour_matches clamped_neighbour_values]
  have n3: "spec_adjacent_matches historical_data ''Burglary'' 3 \<noteq> []"
    by (simp add: burglary_3_matches)
  note r3 = estimated_match_statistics [OF hist_bounded burglary_3_matches(1) n3,
      unfolded burglary_3_matches burglary_3_float_values burglary_3_values(2),
      folded api_recommend_sentence_def]
  show ?thesis using r1 r2 r3 by (intro conjI)
qed

text \<open>
  Claim C8. For a crime type that no case of the table has, the advisor answers
  \<^verbatim>\<open>Failed\<close> at every severity score, with no statistics and the basis
  \<^verbatim>\<open>"No historical data found for this crime type."\<close>; this holds for every table, and
  \<^verbatim>\<open>("Homicide", 5)\<close> on the historical table is the witness.
\<close>

theorem no_data_for_unknown_crime_type:
  assumes "\<forall>h\<in>set dataset. crime_type h \<noteq> c"
  shows "recommend_sentence dataset c s =
    Inr \<lparr>status = ''Failed'', data = None,
         basis = ''No historical data found for this crime type.''\<rparr>"
proof -
  have "spec_direct_matches dataset c s = []"
    using assms by (simp add: spec_direct_matches_def filter_empty_conv)
  moreover have "spec_adjacent_matches dataset c s = []"
    using assms by (simp add: spec_adjacent_matches_def filter_empty_conv)
  ultimately show ?thesis by (simp add: recommend_sentence_tiers)
qed

theorem no_data_for_unknown_crime_type_witness:
  "api_recommend_sentence ''Homicide'' 5 =
    Inr \<lparr>status = ''Failed'', data = None,
         basis = ''No historical data found for this crime type.''\<rparr>"
proof -
  have "\<forall>h\<in>set historical_data. crime_type h \<noteq> ''Homicide''"
    by (simp add: historical_data_def)
  then show ?thesis
    unfolding api_recommend_sentence_def by (rule no_data_for_unknown_crime_type)
qed

text \<open>
  Claim C6. Every query is answered, and whenever the status is not \<^verbatim>\<open>Failed\<close> the
  answer carries statistics with
  \<open>min_sentence \<le> recommendation_months \<le> max_sentence\<close>: neither the float division
  nor the rounding to one decimal leaves the range of the matched sentences.
\<close>

theorem recommendation_within_range:
  "\<exists>r. api_recommend_sentence c s = Inr r \<and>
     (status r \<noteq> ''Failed'' \<longrightarrow>
        (\<exists>st. data r = Some st \<and>
           of_int (min_sentence st) \<le> recommendation_months st \<and>
           recommendation_months st \<le> of_int (max_sentence st)))"
proof -
  define D where "D = spec_direct_matches historical_data c s"
  define A where "A = spec_adjacent_matches historical_data c s"
  have bD: "\<forall>h\<in>set D. 0 \<le> sentence_given_months h \<and> sentence_given_months h \<le> 2 ^ 53"
    using hist_bounded by (simp add: D_def spec_direct_matches_def)
  have bA: "\<forall>h\<in>set A. 0 \<le> sentence_given_months h \<and> sentence_given_months h \<le> 2 ^ 53"
    using hist_bounded by (simp add: A_def spec_adjacent_matches_def)
  note raw = recommend_sentence_bounded [OF hist_bounded, of c s, folded D_def A_def]
  show ?thesis
  proof (cases "D = []")
    case False
    show ?thesis
      unfolding api_recommend_sentence_def raw
      using False get_stats_bounded [OF False bD] by (simp add: bind_err_def)
  next
    case True
    show ?thesis
    proof (cases "A = []")
      case False
      show ?thesis
        unfolding api_recommend_sentence_def raw
        using True False get_stats_bounded [OF False bA] by (simp add: bind_err_def)
    next
      case A: True
      show ?thesis
        unfolding api_recommend_sentence_def raw
        using True A by simp
    qed
  qed
qed

lemma hist_severity_range:
  "\<forall>h\<in>set historical_data. 1 \<le> severity_score h \<and> severity_score h \<le> 5"
  by (simp add: historical_data_def)

lemma direct_out_of_range:
  assumes "\<forall>h\<in>set dataset. 1 \<le> severity_score h \<and> severity_score h \<le> 5"
    and "s < 1 \<or> 5 < s"
  shows "spec_direct_matches dataset c s = []"
  unfolding spec_direct_matches_def filter_empty_conv
  using assms by fastforce

lemma adjacent_out_of_range:
  assumes "s < 1 \<or> 5 < s"
  shows "spec_adjacent_matches dataset c s =
     (if s = 0 then spec_direct_matches dataset c 1
      else if s = 6 then spec_direct_matches dataset c 5
      else [])"
proof -
  consider "s = 0" | "s = 6" | "s < 0" | "6 < s" using assms by linarith
  then show ?thesis
  proof cases
    case 1
    then show ?thesis by (simp add: spec_adjacent_matches_def spec_direct_matches_def)
  next
    case 2
    then show ?thesis by (simp add: spec_adjacent_matches_def spec_direct_matches_def)
  next
    case 3
    then show ?thesis by (simp add: spec_adjacent_matches_def)
  next
    case 4
    then show ?thesis by (simp add: spec_adjacent_matches_def)
  qed
qed

lemma hist_direct_1:
  "spec_direct_matches historical_data c 1 = (if c = ''Vandalism'' then [historical_data ! 5] else [])"
  by (cases c rule: crime_type_cases) (simp_all add: spec_direct_matches_def historical_data_def)

lemma hist_direct_5:
  "spec_direct_matches historical_data c 5 = (if c = ''Fraud'' then [historical_data ! 3] else [])"
  by (cases c rule: crime_type_cases) (simp_all add: spec_direct_matches_def historical_data_def)


lemma out_of_range_values:
  "spec_statistics [historical_data ! 5] =
     \<lparr>recommendation_months = 1, min_sentence = 1, max_sentence = 1, case_count = 1\<rparr>"
  "spec_statistics [historical_data ! 3] =
     \<lparr>recommendation_months = 60, min_sentence = 60, max_sentence = 60, case_count = 1\<rparr>"
  "''Estimate based on '' @ str_nat (length [historical_data ! 5])
     @ '' case(s) with similar severity.'' = ''Estimate based on 1 case(s) with similar severity.''"
  "''Estimate based on '' @ str_nat (length [historical_data ! 3])
     @ '' case(s) with similar severity.'' = ''Estimate based on 1 case(s) with similar severity.''"
  by code_simp+

lemma str_nat_1: "str_nat (Suc 0) = ''1''"
  by code_simp

lemma out_of_range_closed_form:
  assumes "s < 1 \<or> 5 < s"
  shows "api_recommend_sentence c s =
     (if s = 0 \<and> c = ''Vandalism'' then
        Inr \<lparr>status = ''Success (Estimated)'',
             data = Some \<lparr>recommendation_months = 1, min_sentence = 1, max_sentence = 1,
                          case_count = 1\<rparr>,
             basis = ''Estimate based on 1 case(s) with similar severity.''\<rparr>
      else if s = 6 \<and> c = ''Fraud'' then
        Inr \<lparr>status = ''Success (Estimated)'',
             data = Some \<lparr>recommendation_months = 60, min_sentence = 60, max_sentence = 60,
                          case_count = 1\<rparr>,
             basis = ''Estimate based on 1 case(s) with similar severity.''\<rparr>
      else Inr \<lparr>status = ''Failed'', data = None,
                basis = ''No historical data found for this crime type.''\<rparr>)"
proof -
  note D = direct_out_of_range [OF hist_severity_range assms, of c]
  have A: "spec_adjacent_matches historical_data c s =
     (if s = 0 \<and> c = ''Vandalism'' then [historical_data ! 5]
      else if s = 6 \<and> c = ''Fraud'' then [historical_data ! 3]
      else [])"
    by (simp add: adjacent_out_of_range [OF assms] hist_direct_1 hist_direct_5)
  show ?thesis
    unfolding api_closed_form D A
    by (simp add: out_of_range_values(1,2) str_nat_1)
qed


text \<open>
  Claim C5, as amended. A severity score outside 1..5 is not rejected and is not always
  answered \<^verbatim>\<open>Failed\<close>: only the neighbours \<open>s - 1\<close> and \<open>s + 1\<close> are restricted to 1..5,
  so the scores 0 and 6 still have the neighbours 1 and 5. For every crime type and every
  score outside 1..5 the answer is \<^verbatim>\<open>Failed\<close>, except that the score 0 with a case of
  that crime type at severity 1, and the score 6 with a case at severity 5, give an
  estimate from that neighbour; on the historical table these are exactly
  \<^verbatim>\<open>("Vandalism", 0)\<close> and \<^verbatim>\<open>("Fraud", 6)\<close>. No query raises an error.
\<close>

theorem out_of_range_severity:
  assumes "s < 1 \<or> 5 < s"
  shows "api_recommend_sentence c s =
     (if s = 0 \<and> c = ''Vandalism'' then
        Inr \<lparr>status = ''Success (Estimated)'',
             data = Some \<lparr>recommendation_months = 1, min_sentence = 1, max_sentence = 1,
                          case_count = 1\<rparr>,
             basis = ''Estimate based on 1 case(s) with similar severity.''\<rparr>
      else if s = 6 \<and> c = ''Fraud'' then
        Inr \<lparr>status = ''Success (Estimated)'',
             data = Some \<lparr>recommendation_months = 60, min_sentence = 60, max_sentence = 60,
                          case_count = 1\<rparr>,
             basis = ''Estimate based on 1 case(s) with similar severity.''\<rparr>
      else Inr \<lparr>status = ''Failed'', data = None,
                basis = ''No historical data found for this crime type.''\<rparr>)"
  using assms by (rule out_of_range_closed_form)

theorem out_of_range_severity_witness:
  "api_recommend_sentence ''Fraud'' 6 =
     Inr \<lparr>status = ''Success (Estimated)'',
          data = Some \<lparr>recommendation_months = 60, min_sentence = 60, max_sentence = 60,
                       case_count = 1\<rparr>,
          basis = ''Estimate based on 1 case(s) with similar severity.''\<rparr>
   \<and> api_recommend_sentence ''Theft'' 9 =
     Inr \<lparr>status = ''Failed'', data = None,
          basis = ''No historical data found for this crime type.''\<rparr>"
  using out_of_range_severity [of 6 "''Fraud''"] out_of_range_severity [of 9 "''Theft''"]
  by simp

text \<open>
  The score 0 lies outside 1..5, yet \<^verbatim>\<open>("Vandalism", 0)\<close> is answered with an estimate
  from the one case of severity 1, not with \<^verbatim>\<open>Failed\<close>.
\<close>

theorem out_of_range_severity_counterexample:
  "\<not> (1 \<le> (0::int) \<and> (0::int) \<le> 5) \<and>
   api_recommend_sentence ''Vandalism'' 0 =
     Inr \<lparr>status = ''Success (Estimated)'',
          data = Some \<lparr>recommendation_months = 1, min_sentence = 1, max_sentence = 1,
                       case_count = 1\<rparr>,
          basis = ''Estimate based on 1 case(s) with similar severity.''\<rparr>"
  using out_of_range_closed_form [of 0 "''Vandalism''"] by simp

lemma burglary_3_result:
  "api_recommend_sentence ''Burglary'' 3 =
    Inr \<lparr>status = ''Success (Estimated)'',
         data = Some \<lparr>recommendation_months = fl53 (273 / 10), min_sentence = 24,
                      max_sentence = 30, case_count = 3\<rparr>,
         basis = ''Estimate based on 3 case(s) with similar severity.''\<rparr>"
  unfolding api_closed_form burglary_3_matches burglary_3_values by simp

theorem recommendation_within_range_witness:
  "api_recommend_sentence ''Burglary'' 3 =
    Inr \<lparr>status = ''Success (Estimated)'',
         data = Some \<lparr>recommendation_months = fl53 (273 / 10), min_sentence = 24,
                      max_sentence = 30, case_count = 3\<rparr>,
         basis = ''Estimate based on 3 case(s) with similar severity.''\<rparr>
   \<and> 24 \<le> fl53 (273 / 10) \<and> fl53 (273 / 10) \<le> 30"
  using recommendation_within_range [of "''Burglary''" 3]
  unfolding burglary_3_result by simp

lemma get_stats_nonempty:
  assumes "cases \<noteq> []"
  shows "get_stats cases = Inl OverflowError \<or> (\<exists>st. get_stats cases = Inr (Some st))"
proof -
  have xs: "map sentence_given_months cases \<noteq> []" using assms by simp
  have len: "int (length cases) \<noteq> 0" using assms by simp
  show ?thesis
    using assms len
    by (simp add: get_stats_def Let_def bind_err_def py_truediv_def py_round_def
        py_min_Min [OF xs] py_max_Max [OF xs])
qed

lemma get_stats_None_iff: "get_stats cases = Inr None \<longleftrightarrow> cases = []"
  using get_stats_nonempty [of cases] by (auto simp: get_stats_def)

lemma recommend_sentence_errors:
  "recommend_sentence dataset c s = Inl e \<Longrightarrow> e = OverflowError"
proof -
  assume a: "recommend_sentence dataset c s = Inl e"
  define M where "M = spec_direct_matches dataset c s"
  define S where "S = spec_adjacent_matches dataset c s"
  note raw = recommend_sentence_tiers [of dataset c s, folded M_def S_def]
  show ?thesis
  proof (cases "M = []")
    case False
    then show ?thesis using a get_stats_nonempty [OF False]
      by (auto simp: raw bind_err_def stats_field_def)
  next
    case True
    show ?thesis
    proof (cases "S = []")
      case False
      then show ?thesis using a True get_stats_nonempty [OF False]
        by (auto simp: raw bind_err_def stats_field_def)
    next
      case S: True
      then show ?thesis using a True by (simp add: raw)
    qed
  qed
qed

text \<open>
  Claim C9. The advisor answers every query on the historical table with a result, and
  the statistics are absent exactly when the status is \<^verbatim>\<open>Failed\<close>. Whatever the table,
  it never divides by zero, never subscripts absent statistics and never takes the
  minimum of an empty list: \<^verbatim>\<open>get_stats\<close> returns \<^verbatim>\<open>None\<close> only for the empty list, and
  both call sites pass a non-empty list.
\<close>

theorem recommend_total:
  "(\<exists>r. api_recommend_sentence c s = Inr r \<and> (data r = None \<longleftrightarrow> status r = ''Failed''))
   \<and> recommend_sentence dataset c' s' \<notin> {Inl ZeroDivisionError, Inl TypeError, Inl ValueError}
   \<and> (get_stats cases = Inr None \<longleftrightarrow> cases = [])
   \<and> get_stats cases \<noteq> Inl ZeroDivisionError"
proof -
  have "\<exists>r. api_recommend_sentence c s = Inr r \<and> (data r = None \<longleftrightarrow> status r = ''Failed'')"
    by (simp add: api_closed_form)
  moreover have "recommend_sentence dataset c' s' \<notin> {Inl ZeroDivisionError, Inl TypeError, Inl ValueError}"
    using recommend_sentence_errors [of dataset c' s'] by auto
  moreover have "get_stats cases \<noteq> Inl ZeroDivisionError"
    using get_stats_nonempty [of cases] by (cases "cases = []") (auto simp: get_stats_def)
  ultimately show ?thesis by (simp add: get_stats_None_iff)
qed

theorem recommend_total_witness:
  "api_recommend_sentence ''Burglary'' 3 =
    Inr \<lparr>status = ''Success (Estimated)'',
         data = Some \<lparr>recommendation_months = fl53 (273 / 10), min_sentence = 24,
                      max_sentence = 30, case_count = 3\<rparr>,
         basis = ''Estimate based on 3 case(s) with similar severity.''\<rparr>
   \<and> recommend_sentence [] ''Theft'' 2 =
    Inr \<lparr>status = ''Failed'', data = None,
         basis = ''No historical data found for this crime type.''\<rparr>
   \<and> get_stats [] = Inr None"
  using recommend_total [of "''Burglary''" 3 "[]" "''Theft''" 2 "[]"]
  by (simp add: burglary_3_result recommend_sentence_def get_stats_def)

section \<open>The case-file handlers\<close>

lemma map_of_update: "map_of (AList.update k v db) k' = (if k' = k then Some v else map_of db k')"
  by (simp add: update_conv')

lemma create_case_present:
  assumes "map_of db cid \<noteq> None"
  shows "api_create_case db cid name =
     (db, \<lparr>resp_status = ''error'', resp_message = Some ''Case ID already exists.'',
           resp_data = None\<rparr>)"
  using assms by (simp add: api_create_case_def)

lemma create_case_absent:
  assumes "map_of db cid = None"
  shows "api_create_case db cid name = (AList.update cid (init_case cid name) db, success (init_case cid name))"
  using assms by (simp add: api_create_case_def Let_def)

text \<open>
  Claim C3. Creating a case whose identifier is already registered answers with the
  error \<^verbatim>\<open>"Case ID already exists."\<close> and returns the registry as it was. Creating an
  identifier twice therefore succeeds once and fails once, the registry after both calls
  is the registry after the first, and the stored record keeps the first defendant name.
\<close>

theorem create_case_rejects_duplicate:
  "(map_of db cid \<noteq> None \<longrightarrow>
      api_create_case db cid name =
        (db, \<lparr>resp_status = ''error'', resp_message = Some ''Case ID already exists.'',
              resp_data = None\<rparr>))
   \<and> (map_of db cid = None \<longrightarrow>
        api_create_case db cid first_name =
          (AList.update cid (init_case cid first_name) db, success (init_case cid first_name))
        \<and> api_create_case (fst (api_create_case db cid first_name)) cid second_name =
             (fst (api_create_case db cid first_name),
              \<lparr>resp_status = ''error'', resp_message = Some ''Case ID already exists.'',
                resp_data = None\<rparr>)
        \<and> api_get_case (fst (api_create_case (fst (api_create_case db cid first_name)) cid second_name)) cid
             = success (init_case cid first_name)
        \<and> defendant_name (init_case cid first_name) = first_name)"
proof (intro conjI impI)
  assume "map_of db cid \<noteq> None"
  then show "api_create_case db cid name =
        (db, \<lparr>resp_status = ''error'', resp_message = Some ''Case ID already exists.'',
              resp_data = None\<rparr>)"
    by (rule create_case_present)
next
  assume a: "map_of db cid = None"
  define db1 where "db1 = AList.update cid (init_case cid first_name) db"
  have p: "map_of db1 cid = Some (init_case cid first_name)" by (simp add: db1_def map_of_update)
  have c1: "api_create_case db cid first_name = (db1, success (init_case cid first_name))"
    using a by (simp add: create_case_absent db1_def)
  have c2: "api_create_case db1 cid second_name =
                (db1, \<lparr>resp_status = ''error'', resp_message = Some ''Case ID already exists.'',
                       resp_data = None\<rparr>)"
    using p by (simp add: create_case_present)
  have g: "api_get_case db1 cid = success (init_case cid first_name)"
    using p by (simp add: api_get_case_def)
  show "api_create_case db cid first_name =
          (AList.update cid (init_case cid first_name) db, success (init_case cid first_name))"
    using c1 by (simp add: db1_def)
  show "api_create_case (fst (api_create_case db cid first_name)) cid second_name =
             (fst (api_create_case db cid first_name),
              \<lparr>resp_status = ''error'', resp_message = Some ''Case ID already exists.'',
                resp_data = None\<rparr>)"
    by (simp add: c1 c2)
  show "api_get_case (fst (api_create_case (fst (api_create_case db cid first_name)) cid second_name)) cid
             = success (init_case cid first_name)"
    by (simp add: c1 c2 g)
  show "defendant_name (init_case cid first_name) = first_name"
    by (simp add: init_case_def)
qed

theorem create_case_rejects_duplicate_witness:
  "api_create_case case_files_db ''C1'' ''Alice'' =
     ([(''C1'', init_case ''C1'' ''Alice'')], success (init_case ''C1'' ''Alice''))
   \<and> api_create_case [(''C1'', init_case ''C1'' ''Alice'')] ''C1'' ''Bob'' =
     ([(''C1'', init_case ''C1'' ''Alice'')],
      \<lparr>resp_status = ''error'', resp_message = Some ''Case ID already exists.'', resp_data = None\<rparr>)
   \<and> api_get_case [(''C1'', init_case ''C1'' ''Alice'')] ''C1'' = success (init_case ''C1'' ''Alice'')
   \<and> defendant_name (init_case ''C1'' ''Alice'') = ''Alice''"
proof -
  have n: "map_of case_files_db ''C1'' = None" by (simp add: case_files_db_def)
  have u: "AList.update ''C1'' (init_case ''C1'' ''Alice'') case_files_db
      = [(''C1'', init_case ''C1'' ''Alice'')]"
    by (simp add: case_files_db_def)
  note t = create_case_rejects_duplicate
    [of case_files_db "''C1''" "''Bob''" "''Alice''" "''Bob''", THEN conjunct2, rule_format, OF n]
  note a1 = t [THEN conjunct1, unfolded u]
  note a2 = t [THEN conjunct2, THEN conjunct1, unfolded a1 fst_conv]
  note a3 = t [THEN conjunct2, THEN conjunct2, THEN conjunct1, unfolded a1 fst_conv a2]
  note a4 = t [THEN conjunct2, THEN conjunct2, THEN conjunct2]
  show ?thesis using a1 a2 a3 a4 by (intro conjI)
qed

lemma add_evidence_present:
  assumes "map_of db cid = Some c"
  shows "api_add_evidence db cid item now =
     (AList.update cid (add_evidence c item now) db, success (add_evidence c item now))"
  using assms by (simp add: api_add_evidence_def Let_def)

lemma add_evidence_absent:
  assumes "map_of db cid = None"
  shows "api_add_evidence db cid item now = (db, not_found)"
  using assms by (simp add: api_add_evidence_def)

lemma update_status_present:
  assumes "map_of db cid = Some c"
  shows "api_update_status db cid new_status =
     (AList.update cid (update_status c new_status) db, success (update_status c new_status))"
  using assms by (simp add: api_update_status_def Let_def)

lemma update_status_absent:
  assumes "map_of db cid = None"
  shows "api_update_status db cid new_status = (db, not_found)"
  using assms by (simp add: api_update_status_def)

lemma serve_log_prefix:
  assumes "map_of db k = Some c"
  shows "\<exists>c' ys. map_of (serve db r) k = Some c' \<and> evidence_log c' = evidence_log c @ ys"
proof (cases r)
  case GetAllCases
  then show ?thesis using assms by simp
next
  case (CreateCase cid name)
  then show ?thesis using assms
    by (cases "map_of db cid") (auto simp add: create_case_absent create_case_present map_of_update)
next
  case (GetCase cid)
  then show ?thesis using assms by simp
next
  case (AddEvidence cid item now)
  then show ?thesis using assms
    by (cases "map_of db cid")
      (auto simp add: add_evidence_absent add_evidence_present map_of_update add_evidence_def)
next
  case (UpdateStatus cid new_status)
  then show ?thesis using assms
    by (cases "map_of db cid")
      (auto simp add: update_status_absent update_status_present map_of_update update_status_def)
qed

lemma foldl_serve_log_prefix:
  assumes "map_of db k = Some c"
  shows "\<exists>c' ys. map_of (foldl serve db reqs) k = Some c' \<and> evidence_log c' = evidence_log c @ ys"
  using assms
proof (induction reqs arbitrary: db c)
  case Nil
  then show ?case by simp
next
  case (Cons r reqs)
  from serve_log_prefix [OF Cons.prems, of r] obtain c1 ys1
    where s1: "map_of (serve db r) k = Some c1" and l1: "evidence_log c1 = evidence_log c @ ys1"
    by blast
  from Cons.IH [OF s1] obtain c' ys
    where s2: "map_of (foldl serve (serve db r) reqs) k = Some c'"
      and l2: "evidence_log c' = evidence_log c1 @ ys"
    by blast
  have "evidence_log c' = evidence_log c @ (ys1 @ ys)" using l1 l2 by simp
  then show ?case using s2 by auto
qed

text \<open>
  Claim C4. A successful \<^verbatim>\<open>add_evidence\<close> stores the record with one entry more: the new
  entry, holding the given item and the timestamp taken in the call, is last, and the
  entries before it are the former log unchanged. On an absent identifier nothing
  changes. No sequence of requests to the five endpoints removes, reorders or rewrites
  an entry: the log of every registered case stays a prefix of its later log.
\<close>

theorem evidence_log_append_only:
  "(map_of db cid = Some c \<longrightarrow>
      api_add_evidence db cid item now =
        (AList.update cid (add_evidence c item now) db, success (add_evidence c item now))
      \<and> map_of (fst (api_add_evidence db cid item now)) cid = Some (add_evidence c item now)
      \<and> evidence_log (add_evidence c item now) =
          evidence_log c @ [\<lparr>evidence_item = item, timestamp = now\<rparr>]
      \<and> length (evidence_log (add_evidence c item now)) = length (evidence_log c) + 1)
   \<and> (map_of db cid = None \<longrightarrow> api_add_evidence db cid item now = (db, not_found))
   \<and> (map_of db k = Some c \<longrightarrow>
        (\<exists>c' ys. map_of (foldl serve db reqs) k = Some c' \<and>
                 evidence_log c' = evidence_log c @ ys))"
proof (intro conjI impI)
  assume a: "map_of db cid = Some c"
  show "api_add_evidence db cid item now =
        (AList.update cid (add_evidence c item now) db, success (add_evidence c item now))"
    using a by (rule add_evidence_present)
  then show "map_of (fst (api_add_evidence db cid item now)) cid = Some (add_evidence c item now)"
    by (simp add: map_of_update)
  show "evidence_log (add_evidence c item now) =
          evidence_log c @ [\<lparr>evidence_item = item, timestamp = now\<rparr>]"
    by (simp add: add_evidence_def)
  show "length (evidence_log (add_evidence c item now)) = length (evidence_log c) + 1"
    by (simp add: add_evidence_def)
next
  assume "map_of db cid = None"
  then show "api_add_evidence db cid item now = (db, not_found)" by (rule add_evidence_absent)
next
  assume "map_of db k = Some c"
  then show "\<exists>c' ys. map_of (foldl serve db reqs) k = Some c' \<and>
                 evidence_log c' = evidence_log c @ ys"
    by (rule foldl_serve_log_prefix)
qed


theorem evidence_log_append_only_witness:
  "api_add_evidence [(''C1'', init_case ''C1'' ''Alice'')] ''C1'' ''knife'' ''2024-01-01 10:00:00'' =
     ([(''C1'', add_evidence (init_case ''C1'' ''Alice'') ''knife'' ''2024-01-01 10:00:00'')],
      success (add_evidence (init_case ''C1'' ''Alice'') ''knife'' ''2024-01-01 10:00:00''))
   \<and> evidence_log (add_evidence (init_case ''C1'' ''Alice'') ''knife'' ''2024-01-01 10:00:00'') =
       [\<lparr>evidence_item = ''knife'', timestamp = ''2024-01-01 10:00:00''\<rparr>]
   \<and> map (\<lambda>(k, c). (k, evidence_log c))
        (foldl serve [(''C1'', add_evidence (init_case ''C1'' ''Alice'') ''knife'' ''2024-01-01 10:00:00'')]
          [UpdateStatus ''C1'' ''Trial'', CreateCase ''C1'' ''Bob'', GetAllCases,
           AddEvidence ''C1'' ''glove'' ''2024-01-02 09:30:00'', GetCase ''C1'']) =
       [(''C1'', [\<lparr>evidence_item = ''knife'', timestamp = ''2024-01-01 10:00:00''\<rparr>,
                 \<lparr>evidence_item = ''glove'', timestamp = ''2024-01-02 09:30:00''\<rparr>])]"
proof -
  have p: "map_of [(''C1'', init_case ''C1'' ''Alice'')] ''C1'' = Some (init_case ''C1'' ''Alice'')"
    by simp
  have u: "AList.update ''C1'' (add_evidence (init_case ''C1'' ''Alice'') ''knife'' ''2024-01-01 10:00:00'')
             [(''C1'', init_case ''C1'' ''Alice'')]
           = [(''C1'', add_evidence (init_case ''C1'' ''Alice'') ''knife'' ''2024-01-01 10:00:00'')]"
    by simp
  have e: "evidence_log (init_case ''C1'' ''Alice'') = []" by (simp add: init_case_def)
  note t = evidence_log_append_only [of "[(''C1'', init_case ''C1'' ''Alice'')]" "''C1''"
      "init_case ''C1'' ''Alice''" "''knife''" "''2024-01-01 10:00:00''" "''C1''" "[]",
      THEN conjunct1, rule_format, OF p]
  note a1 = t [THEN conjunct1, unfolded u]
  note a2 = t [THEN conjunct2, THEN conjunct2, THEN conjunct1, unfolded e append_Nil]
  have a3: "map (\<lambda>(k, c). (k, evidence_log c))
        (foldl serve [(''C1'', add_evidence (init_case ''C1'' ''Alice'') ''knife'' ''2024-01-01 10:00:00'')]
          [UpdateStatus ''C1'' ''Trial'', CreateCase ''C1'' ''Bob'', GetAllCases,
           AddEvidence ''C1'' ''glove'' ''2024-01-02 09:30:00'', GetCase ''C1'']) =
       [(''C1'', [\<lparr>evidence_item = ''knife'', timestamp = ''2024-01-01 10:00:00''\<rparr>,
                 \<lparr>evidence_item = ''glove'', timestamp = ''2024-01-02 09:30:00''\<rparr>])]"
    by (simp add: api_update_status_def api_create_case_def api_add_evidence_def
        add_evidence_def update_status_def init_case_def Let_def)
  show ?thesis using a1 a2 a3 by (intro conjI)
qed

lemma serve_keeps_status:
  assumes "map_of db k = Some c" and "\<forall>st. r \<noteq> UpdateStatus k st"
  shows "\<exists>c'. map_of (serve db r) k = Some c' \<and> case_status c' = case_status c"
proof (cases r)
  case GetAllCases
  then show ?thesis using assms by simp
next
  case (CreateCase cid name)
  then show ?thesis using assms
    by (cases "map_of db cid") (auto simp add: create_case_absent create_case_present map_of_update)
next
  case (GetCase cid)
  then show ?thesis using assms by simp
next
  case (AddEvidence cid item now)
  then show ?thesis using assms
    by (cases "map_of db cid")
      (auto simp add: add_evidence_absent add_evidence_present map_of_update add_evidence_def)
next
  case (UpdateStatus cid new_status)
  then have "cid \<noteq> k" using assms(2) by auto
  then show ?thesis using assms UpdateStatus
    by (cases "map_of db cid")
      (auto simp add: update_status_absent update_status_present map_of_update)
qed

lemma foldl_serve_keeps_status:
  assumes "map_of db k = Some c" and "\<forall>r\<in>set reqs. \<forall>st. r \<noteq> UpdateStatus k st"
  shows "\<exists>c'. map_of (foldl serve db reqs) k = Some c' \<and> case_status c' = case_status c"
  using assms
proof (induction reqs arbitrary: db c)
  case Nil
  then show ?case by simp
next
  case (Cons r reqs)
  have "\<forall>st. r \<noteq> UpdateStatus k st" using Cons.prems(2) by simp
  from serve_keeps_status [OF Cons.prems(1) this] obtain c1
    where s1: "map_of (serve db r) k = Some c1" and e1: "case_status c1 = case_status c"
    by blast
  have rest: "\<forall>r\<in>set reqs. \<forall>st. r \<noteq> UpdateStatus k st" using Cons.prems(2) by simp
  from Cons.IH [OF s1 rest] show ?case using e1 by auto
qed

text \<open>
  Claim C7. For a registered identifier \<^verbatim>\<open>update_status\<close> succeeds for any string and
  stores the record with that status, no check being made; reading the case afterwards
  returns that status, also after any further requests that are not a status update of
  the same case. For an absent identifier the answer is \<^verbatim>\<open>not_found\<close> and the registry
  is unchanged.
\<close>

theorem update_status_overwrites:
  "(map_of db cid = Some c \<longrightarrow>
      api_update_status db cid new_status =
        (AList.update cid (c\<lparr>case_status := new_status\<rparr>) db, success (c\<lparr>case_status := new_status\<rparr>))
      \<and> api_get_case (fst (api_update_status db cid new_status)) cid =
          success (c\<lparr>case_status := new_status\<rparr>)
      \<and> ((\<forall>r\<in>set reqs. \<forall>st. r \<noteq> UpdateStatus cid st) \<longrightarrow>
           (\<exists>c'. api_get_case (foldl serve (fst (api_update_status db cid new_status)) reqs) cid
                    = success c' \<and> case_status c' = new_status)))
   \<and> (map_of db cid = None \<longrightarrow> api_update_status db cid new_status = (db, not_found))"
proof (intro conjI impI)
  assume a: "map_of db cid = Some c"
  define db1 where "db1 = AList.update cid (c\<lparr>case_status := new_status\<rparr>) db"
  have u: "api_update_status db cid new_status = (db1, success (c\<lparr>case_status := new_status\<rparr>))"
    using update_status_present [OF a] by (simp add: update_status_def db1_def)
  have p: "map_of db1 cid = Some (c\<lparr>case_status := new_status\<rparr>)"
    by (simp add: db1_def map_of_update)
  show "api_update_status db cid new_status =
        (AList.update cid (c\<lparr>case_status := new_status\<rparr>) db, success (c\<lparr>case_status := new_status\<rparr>))"
    using u by (simp add: db1_def)
  show "api_get_case (fst (api_update_status db cid new_status)) cid =
          success (c\<lparr>case_status := new_status\<rparr>)"
    using p by (simp add: u api_get_case_def)
  assume b: "\<forall>r\<in>set reqs. \<forall>st. r \<noteq> UpdateStatus cid st"
  from foldl_serve_keeps_status [OF p b] obtain c'
    where "map_of (foldl serve db1 reqs) cid = Some c'" and "case_status c' = new_status"
    by auto
  then show "\<exists>c'. api_get_case (foldl serve (fst (api_update_status db cid new_status)) reqs) cid
                    = success c' \<and> case_status c' = new_status"
    by (auto simp add: u api_get_case_def)
next
  assume "map_of db cid = None"
  then show "api_update_status db cid new_status = (db, not_found)" by (rule update_status_absent)
qed

theorem update_status_overwrites_witness:
  "api_update_status [(''C1'', init_case ''C1'' ''Alice'')] ''C1'' ''Closed ??'' =
     ([(''C1'', (init_case ''C1'' ''Alice'')\<lparr>case_status := ''Closed ??''\<rparr>)],
      success ((init_case ''C1'' ''Alice'')\<lparr>case_status := ''Closed ??''\<rparr>))
   \<and> api_get_case [(''C1'', (init_case ''C1'' ''Alice'')\<lparr>case_status := ''Closed ??''\<rparr>)] ''C1''
       = success ((init_case ''C1'' ''Alice'')\<lparr>case_status := ''Closed ??''\<rparr>)
   \<and> resp_data (api_get_case
         (foldl serve [(''C1'', (init_case ''C1'' ''Alice'')\<lparr>case_status := ''Closed ??''\<rparr>)]
            [AddEvidence ''C1'' ''knife'' ''2024-01-01 10:00:00'', UpdateStatus ''C2'' ''Trial'',
             CreateCase ''C1'' ''Bob'', UpdateStatus ''C1'' ''Appeal'', GetAllCases]) ''C1'')
       = Some \<lparr>case_id = ''C1'', defendant_name = ''Alice'',
               evidence_log = [\<lparr>evidence_item = ''knife'', timestamp = ''2024-01-01 10:00:00''\<rparr>],
               case_status = ''Appeal''\<rparr>
   \<and> api_update_status case_files_db ''C1'' ''Trial'' = (case_files_db, not_found)"
proof -
  have p: "map_of [(''C1'', init_case ''C1'' ''Alice'')] ''C1'' = Some (init_case ''C1'' ''Alice'')"
    by simp
  have u: "AList.update ''C1'' ((init_case ''C1'' ''Alice'')\<lparr>case_status := ''Closed ??''\<rparr>)
             [(''C1'', init_case ''C1'' ''Alice'')]
           = [(''C1'', (init_case ''C1'' ''Alice'')\<lparr>case_status := ''Closed ??''\<rparr>)]"
    by simp
  have n: "map_of case_files_db ''C1'' = None" by (simp add: case_files_db_def)
  note t = update_status_overwrites [of "[(''C1'', init_case ''C1'' ''Alice'')]" "''C1''"
      "init_case ''C1'' ''Alice''" "''Closed ??''" "[]", THEN conjunct1, rule_format, OF p]
  note a1 = t [THEN conjunct1, unfolded u]
  note a2 = t [THEN conjunct2, THEN conjunct1, unfolded a1 fst_conv]
  have a3: "resp_data (api_get_case
         (foldl serve [(''C1'', (init_case ''C1'' ''Alice'')\<lparr>case_status := ''Closed ??''\<rparr>)]
            [AddEvidence ''C1'' ''knife'' ''2024-01-01 10:00:00'', UpdateStatus ''C2'' ''Trial'',
             CreateCase ''C1'' ''Bob'', UpdateStatus ''C1'' ''Appeal'', GetAllCases]) ''C1'')
       = Some \<lparr>case_id = ''C1'', defendant_name = ''Alice'',
               evidence_log = [\<lparr>evidence_item = ''knife'', timestamp = ''2024-01-01 10:00:00''\<rparr>],
               case_status = ''Appeal''\<rparr>"
    by (simp add: api_update_status_def api_create_case_def api_add_evidence_def api_get_case_def
        add_evidence_def update_status_def init_case_def success_def Let_def)
  note a4 = update_status_overwrites [of case_files_db "''C1''" "init_case ''C1'' ''Alice''"
      "''Trial''" "[]", THEN conjunct2, rule_format, OF n]
  show ?thesis using a1 a2 a3 a4 by (intro conjI)
qed

section \<open>The rounding rule\<close>

lemma round_half_even_tie:
  "round_half_even (of_int k + 1 / 2) = (if even k then k else k + 1)"
proof -
  have "\<lfloor>(of_int k :: rat) + 1 / 2\<rfloor> = k" by linarith
  then show ?thesis by (simp add: round_half_even_def Let_def)
qed

text \<open>
  Claim C10, as amended. The recommendation is rounded by Python's \<^verbatim>\<open>round\<close>, which
  rounds the exact binary value of the float mean (the float nearest to sum divided by
  count) to one decimal place, ties to even, and not half up. Whenever that float mean
  lies exactly on a half at the second decimal place, the recommendation is the even
  neighbour: 3.25 gives 3.2 and not 3.3 (the witness). An exact mean on such a half that
  is no float, such as 69/20 = 3.45, is rounded from the float nearest to it and need
  not go to the even neighbour: the claim is amended to the float mean.
\<close>

theorem rounding_half_even_on_float_mean:
  assumes "cases \<noteq> []"
    and "\<forall>h\<in>set cases. 0 \<le> sentence_given_months h \<and> sentence_given_months h \<le> 2 ^ 53"
    and "fl53 (exact_mean (map sentence_given_months cases)) * 10 = of_int k + 1 / 2"
  shows "get_stats cases = Inr (Some (float_statistics cases))
    \<and> recommendation_months (float_statistics cases)
        = fl53 (of_int (if even k then k else k + 1) / 10)"
proof -
  have rd: "round_decimal (fl53 (exact_mean (map sentence_given_months cases))) 1
      = of_int (if even k then k else k + 1) / 10"
    unfolding round_decimal_def using assms(3) by (simp add: round_half_even_tie)
  have rm: "recommendation_months (float_statistics cases)
      = fl53 (round_decimal (fl53 (exact_mean (map sentence_given_months cases))) 1)"
    by (simp add: float_statistics_def Let_def)
  note v = rm [unfolded rd]
  show ?thesis using get_stats_float [OF assms(1,2)] v by (intro conjI)
qed


lemma mean_3_25_values:
  "fl53 (exact_mean (map sentence_given_months
     [\<lparr>hist_case_id = ''R1'', crime_type = ''Theft'', severity_score = 2, sentence_given_months = 3\<rparr>,
      \<lparr>hist_case_id = ''R2'', crime_type = ''Theft'', severity_score = 2, sentence_given_months = 3\<rparr>,
      \<lparr>hist_case_id = ''R3'', crime_type = ''Theft'', severity_score = 2, sentence_given_months = 3\<rparr>,
      \<lparr>hist_case_id = ''R4'', crime_type = ''Theft'', severity_score = 2, sentence_given_months = 4\<rparr>])) * 10
   = of_int 32 + 1 / 2"
  "float_statistics
     [\<lparr>hist_case_id = ''R1'', crime_type = ''Theft'', severity_score = 2, sentence_given_months = 3\<rparr>,
      \<lparr>hist_case_id = ''R2'', crime_type = ''Theft'', severity_score = 2, sentence_given_months = 3\<rparr>,
      \<lparr>hist_case_id = ''R3'', crime_type = ''Theft'', severity_score = 2, sentence_given_months = 3\<rparr>,
      \<lparr>hist_case_id = ''R4'', crime_type = ''Theft'', severity_score = 2, sentence_given_months = 4\<rparr>]
   = \<lparr>recommendation_months = fl53 (32 / 10), min_sentence = 3, max_sentence = 4, case_count = 4\<rparr>"
  "fl53 (32 / 10) \<noteq> fl53 (33 / 10)"
  "exact_mean [3, 3, 3, 4] = 13 / 4"
  by code_simp+

theorem rounding_half_even_on_float_mean_witness:
  "exact_mean [3, 3, 3, 4] = 13 / 4
   \<and> get_stats
     [\<lparr>hist_case_id = ''R1'', crime_type = ''Theft'', severity_score = 2, sentence_given_months = 3\<rparr>,
      \<lparr>hist_case_id = ''R2'', crime_type = ''Theft'', severity_score = 2, sentence_given_months = 3\<rparr>,
      \<lparr>hist_case_id = ''R3'', crime_type = ''Theft'', severity_score = 2, sentence_given_months = 3\<rparr>,
      \<lparr>hist_case_id = ''R4'', crime_type = ''Theft'', severity_score = 2, sentence_given_months = 4\<rparr>]
     = Inr (Some \<lparr>recommendation_months = fl53 (32 / 10), min_sentence = 3, max_sentence = 4,
                  case_count = 4\<rparr>)
   \<and> fl53 (32 / 10) \<noteq> fl53 (33 / 10)"
proof -
  have ne: "[\<lparr>hist_case_id = ''R1'', crime_type = ''Theft'', severity_score = 2, sentence_given_months = 3\<rparr>,
      \<lparr>hist_case_id = ''R2'', crime_type = ''Theft'', severity_score = 2, sentence_given_months = 3\<rparr>,
      \<lparr>hist_case_id = ''R3'', crime_type = ''Theft'', severity_score = 2, sentence_given_months = 3\<rparr>,
      \<lparr>hist_case_id = ''R4'', crime_type = ''Theft'', severity_score = 2, sentence_given_months = 4\<rparr>] \<noteq> []"
    by simp
  have bd: "\<forall>h\<in>set
     [\<lparr>hist_case_id = ''R1'', crime_type = ''Theft'', severity_score = 2, sentence_given_months = 3\<rparr>,
      \<lparr>hist_case_id = ''R2'', crime_type = ''Theft'', severity_score = 2, sentence_given_months = 3\<rparr>,
      \<lparr>hist_case_id = ''R3'', crime_type = ''Theft'', severity_score = 2, sentence_given_months = 3\<rparr>,
      \<lparr>hist_case_id = ''R4'', crime_type = ''Theft'', severity_score = 2, sentence_given_months = 4\<rparr>].
      0 \<le> sentence_given_months h \<and> sentence_given_months h \<le> 2 ^ 53"
    by simp
  note t = rounding_half_even_on_float_mean [OF ne bd mean_3_25_values(1)]
  note a = t [THEN conjunct1, unfolded mean_3_25_values(2)]
  show ?thesis using mean_3_25_values(4) a mean_3_25_values(3) by (intro conjI)
qed

lemma mean_3_45_values:
  "exact_mean (map sentence_given_months
     (replicate 11 \<lparr>hist_case_id = ''Q'', crime_type = ''Theft'', severity_score = 2, sentence_given_months = 3\<rparr>
      @ replicate 9 \<lparr>hist_case_id = ''Q'', crime_type = ''Theft'', severity_score = 2, sentence_given_months = 4\<rparr>))
   = 69 / 20"
  "round_decimal (69 / 20) 1 = 34 / 10"
  "float_statistics
     (replicate 11 \<lparr>hist_case_id = ''Q'', crime_type = ''Theft'', severity_score = 2, sentence_given_months = 3\<rparr>
      @ replicate 9 \<lparr>hist_case_id = ''Q'', crime_type = ''Theft'', severity_score = 2, sentence_given_months = 4\<rparr>)
   = \<lparr>recommendation_months = 7 / 2, min_sentence = 3, max_sentence = 4, case_count = 20\<rparr>"
  "(7 / 2 :: rat) \<noteq> fl53 (34 / 10)"
  by code_simp+

text \<open>
  Eleven sentences of 3 months and nine of 4 months have the exact mean 3.45, on a half
  at the second decimal place after the even digit 4, and rounding that mean half-even
  gives 3.4; the advisor returns 3.5, because the float nearest 3.45 lies above it.
\<close>

theorem rounding_half_even_counterexample:
  "exact_mean (map sentence_given_months
     (replicate 11 \<lparr>hist_case_id = ''Q'', crime_type = ''Theft'', severity_score = 2, sentence_given_months = 3\<rparr>
      @ replicate 9 \<lparr>hist_case_id = ''Q'', crime_type = ''Theft'', severity_score = 2, sentence_given_months = 4\<rparr>))
   = 69 / 20
   \<and> round_decimal (69 / 20) 1 = 34 / 10
   \<and> get_stats
     (replicate 11 \<lparr>hist_case_id = ''Q'', crime_type = ''Theft'', severity_score = 2, sentence_given_months = 3\<rparr>
      @ replicate 9 \<lparr>hist_case_id = ''Q'', crime_type = ''Theft'', severity_score = 2, sentence_given_months = 4\<rparr>)
     = Inr (Some \<lparr>recommendation_months = 7 / 2, min_sentence = 3, max_sentence = 4,
                  case_count = 20\<rparr>)
   \<and> (7 / 2 :: rat) \<noteq> fl53 (34 / 10)"
proof -
  have ne: "replicate 11 \<lparr>hist_case_id = ''Q'', crime_type = ''Theft'', severity_score = 2, sentence_given_months = 3\<rparr>
      @ replicate 9 \<lparr>hist_case_id = ''Q'', crime_type = ''Theft'', severity_score = 2, sentence_given_months = 4\<rparr> \<noteq> []"
    by simp
  have bd: "\<forall>h\<in>set
     (replicate 11 \<lparr>hist_case_id = ''Q'', crime_type = ''Theft'', severity_score = 2, sentence_given_months = 3\<rparr>
      @ replicate 9 \<lparr>hist_case_id = ''Q'', crime_type = ''Theft'', severity_score = 2, sentence_given_months = 4\<rparr>).
      0 \<le> sentence_given_months h \<and> sentence_given_months h \<le> 2 ^ 53"
    by auto
  note g = get_stats_float [OF ne bd, unfolded mean_3_45_values(3)]
  show ?thesis using mean_3_45_values(1,2) g mean_3_45_values(4) by (intro conjI)
qed

end
